theory Spec2Isabelle
  imports Main "HOL-Library.Multiset" "HOL-Library.Char_ord" "HOL-Library.List_Lexorder"
begin

section \<open>Python exceptions\<close>

text \<open>
  The exceptions the modelled code raises: Python's own, and those of
  \<open>ironic.common.exception\<close>. A function that can raise returns \<open>py_error + 'a\<close>,
  with \<open>Inl\<close> for the exception raised.
\<close>

datatype py_error =
    KeyError
  | TypeError
  | ValueError
  | SyntaxError
  | AttributeError
  | DracClientError
  | DracRequestFailed
  | ExclusiveLockRequired
  | MissingParameterValue "string list"
  | InvalidParameterValue "string list"
  | DriverLoadError
  | NodeLocked
  | NodeNotFound

section \<open>DRAC power interface (ironic/drivers/modules/drac/power.py)\<close>

text \<open>
  The power states of \<open>ironic.common.states\<close> that a power interface can be handed.
  \<open>POWER_ON\<close>, \<open>POWER_OFF\<close> and \<open>REBOOT\<close> are the three the DRAC tables know;
  \<open>ERROR\<close> and \<open>NOSTATE\<close> stand for the remaining, distinct constants of that module.
\<close>

datatype power_state = POWER_ON | POWER_OFF | REBOOT | ERROR | NOSTATE

text \<open>\<open>POWER_STATES\<close>: the DCIM EnabledState text and the power state it stands for.\<close>

definition POWER_STATES :: "(string \<times> power_state) list" where
  "POWER_STATES = [(''2'', POWER_ON), (''3'', POWER_OFF), (''11'', REBOOT)]"

text \<open>\<open>REVERSE_POWER_STATES = dict((v, k) for (k, v) in POWER_STATES.items())\<close>\<close>

definition REVERSE_POWER_STATES :: "(power_state \<times> string) list" where
  "REVERSE_POWER_STATES = map (\<lambda>(k, v). (v, k)) POWER_STATES"

text \<open>
  The WS-Man endpoint of the task's node, as the driver sees it:
  \<^item> \<open>client_error\<close>: what \<open>drac_client.get_wsman_client(node)\<close> raises, if anything;
  \<^item> \<open>enumerate_reply\<close>: the text of the EnabledState element that
    \<open>wsman_enumerate\<close> and \<open>find_xml\<close> deliver, or the error the client raises;
  \<^item> \<open>invoke_reply\<close>: the error \<open>wsman_invoke\<close> raises, if anything;
  \<^item> \<open>invoked\<close>: the RequestedState values passed to \<open>RequestStateChange\<close> so far,
    oldest first.
\<close>

record wsman =
  client_error :: "py_error option"
  enumerate_reply :: "py_error + string"
  invoke_reply :: "py_error option"
  invoked :: "string list"

text \<open>
  The module functions \<open>_get_power_state\<close> and \<open>_set_power_state\<close>. A failed
  dictionary lookup raises \<open>KeyError\<close>; the request is entered in \<open>invoked\<close> when
  \<open>wsman_invoke\<close> is called, whatever it answers.
\<close>

definition drac_get_power_state :: "wsman \<Rightarrow> py_error + power_state" where
  "drac_get_power_state w =
     (case client_error w of
        Some e \<Rightarrow> Inl e
      | None \<Rightarrow>
          (case enumerate_reply w of
             Inl e \<Rightarrow> Inl e
           | Inr text \<Rightarrow>
               (case map_of POWER_STATES text of
                  None \<Rightarrow> Inl KeyError
                | Some s \<Rightarrow> Inr s)))"

definition drac_set_power_state :: "wsman \<Rightarrow> power_state \<Rightarrow> (py_error + unit) \<times> wsman" where
  "drac_set_power_state w target_state =
     (case client_error w of
        Some e \<Rightarrow> (Inl e, w)
      | None \<Rightarrow>
          (case map_of REVERSE_POWER_STATES target_state of
             None \<Rightarrow> (Inl KeyError, w)
           | Some requested \<Rightarrow>
               (let w' = w\<lparr>invoked := invoked w @ [requested]\<rparr>
                in case invoke_reply w of
                     Some e \<Rightarrow> (Inl e, w')
                   | None \<Rightarrow> (Inr (), w'))))"

text \<open>The part of a TaskManager instance the power interface looks at.\<close>

record task =
  node :: string
  shared :: bool

text \<open>
  Modelled from the spec: the decorator \<open>task_manager.require_exclusive_lock\<close>
  (ironic/conductor/task_manager.py is not among the sources). The spec has mutating
  operations require the exclusive lease; the decorated operation is refused with
  \<open>ExclusiveLockRequired\<close>, before its body runs, on a task whose lease is shared.
\<close>

definition require_exclusive_lock ::
  "(task \<Rightarrow> wsman \<Rightarrow> (py_error + 'a) \<times> wsman) \<Rightarrow> task \<Rightarrow> wsman \<Rightarrow> (py_error + 'a) \<times> wsman" where
  "require_exclusive_lock f t w =
     (if shared t then (Inl ExclusiveLockRequired, w) else f t w)"

definition DracPower_get_power_state :: "task \<Rightarrow> wsman \<Rightarrow> py_error + power_state" where
  "DracPower_get_power_state t w = drac_get_power_state w"

definition DracPower_set_power_state ::
  "task \<Rightarrow> power_state \<Rightarrow> wsman \<Rightarrow> (py_error + unit) \<times> wsman" where
  "DracPower_set_power_state t power_state =
     require_exclusive_lock (\<lambda>t w. drac_set_power_state w power_state) t"

definition DracPower_reboot :: "task \<Rightarrow> wsman \<Rightarrow> (py_error + unit) \<times> wsman" where
  "DracPower_reboot =
     require_exclusive_lock (\<lambda>t w.
       case drac_get_power_state w of
         Inl e \<Rightarrow> (Inl e, w)
       | Inr current_power_state \<Rightarrow>
           (let target_power_state =
                  (if current_power_state = POWER_ON then REBOOT else POWER_ON)
            in drac_set_power_state w target_power_state))"

section \<open>Clean step discovery (ironic/drivers/base.py)\<close>

text \<open>
  A function object, as far as \<open>clean_step\<close> and \<open>BaseInterface.__new__\<close> look at it:
  its \<open>__name__\<close>, what \<open>getattr(method, '_is_clean_step', False)\<close> yields, and the
  attribute \<open>_clean_step_priority\<close> (\<open>None\<close> when the function has no such attribute).
\<close>

record func =
  fname :: string
  is_clean_step :: bool
  clean_step_priority :: "int option"

text \<open>A plain \<open>def name(self, task)\<close>: neither attribute is set.\<close>

definition def :: "string \<Rightarrow> func" where
  "def n = \<lparr>fname = n, is_clean_step = False, clean_step_priority = None\<rparr>"

text \<open>The decorator \<open>clean_step(priority)\<close> applied to \<open>func\<close>.\<close>

definition clean_step :: "int \<Rightarrow> func \<Rightarrow> func" where
  "clean_step priority func = func\<lparr>is_clean_step := True, clean_step_priority := Some priority\<rparr>"

text \<open>
  The namespace of an interface instance lists each attribute name once, with its value:
  a bound method or anything else. The list is in the order of declaration.
\<close>

datatype member = Method func | Data

fun ismethod :: "member \<Rightarrow> bool" where
  "ismethod (Method f) = True"
| "ismethod Data = False"

text \<open>
  \<open>inspect.getmembers(object, predicate)\<close>: the members that satisfy the predicate, as
  (name, value) pairs sorted by name.
\<close>

definition getmembers :: "(string \<times> member) list \<Rightarrow> (member \<Rightarrow> bool) \<Rightarrow> (string \<times> member) list" where
  "getmembers members predicate = sort_key fst (filter (\<lambda>(n, v). predicate v) members)"

text \<open>The dictionary \<open>{'step': ..., 'priority': ..., 'interface': ...}\<close> of one clean step.\<close>

record clean_step_dict =
  step :: string
  priority :: int
  interface :: string

text \<open>
  The loop of \<open>__new__\<close> over the members found. Reading \<open>_clean_step_priority\<close> off a
  method that is marked as a clean step and has no such attribute raises
  \<open>AttributeError\<close>.
\<close>

fun find_clean_steps :: "string \<Rightarrow> (string \<times> member) list \<Rightarrow> py_error + clean_step_dict list" where
  "find_clean_steps interface_type [] = Inr []"
| "find_clean_steps interface_type ((n, Data) # rest) = find_clean_steps interface_type rest"
| "find_clean_steps interface_type ((n, Method method) # rest) =
     (if is_clean_step method then
        (case clean_step_priority method of
           None \<Rightarrow> Inl AttributeError
         | Some p \<Rightarrow>
             (case find_clean_steps interface_type rest of
                Inl e \<Rightarrow> Inl e
              | Inr steps \<Rightarrow>
                  Inr (\<lparr>step = fname method, priority = p, interface = interface_type\<rparr> # steps)))
      else find_clean_steps interface_type rest)"

record base_interface =
  interface_type :: string
  clean_steps :: "clean_step_dict list"

definition BaseInterface_new :: "string \<Rightarrow> (string \<times> member) list \<Rightarrow> py_error + base_interface" where
  "BaseInterface_new itype members =
     (case find_clean_steps itype (getmembers members ismethod) of
        Inl e \<Rightarrow> Inl e
      | Inr steps \<Rightarrow> Inr \<lparr>interface_type = itype, clean_steps = steps\<rparr>)"

definition get_clean_steps :: "base_interface \<Rightarrow> task \<Rightarrow> clean_step_dict list" where
  "get_clean_steps self t = clean_steps self"

text \<open>
  The capability interface classes of the module, in the order of their declaration.
  \<open>DeployInterface\<close>, \<open>PowerInterface\<close> and \<open>ManagementInterface\<close> are declared
  \<open>class ...(BaseInterface)\<close> and set \<open>interface_type\<close>; \<open>ConsoleInterface\<close>,
  \<open>RescueInterface\<close>, \<open>VendorInterface\<close> and \<open>InspectInterface\<close> are declared
  \<open>class ...(object)\<close> and set none.
\<close>

datatype interface_class =
    DeployInterface
  | PowerInterface
  | ConsoleInterface
  | RescueInterface
  | VendorInterface
  | ManagementInterface
  | InspectInterface

fun derives_BaseInterface :: "interface_class \<Rightarrow> bool" where
  "derives_BaseInterface DeployInterface = True"
| "derives_BaseInterface PowerInterface = True"
| "derives_BaseInterface ConsoleInterface = False"
| "derives_BaseInterface RescueInterface = False"
| "derives_BaseInterface VendorInterface = False"
| "derives_BaseInterface ManagementInterface = True"
| "derives_BaseInterface InspectInterface = False"

text \<open>
  The \<open>interface_type\<close> a class body sets, if it sets one. An instance of a subclass of
  \<open>BaseInterface\<close> that sets none reads the \<open>'base'\<close> of \<open>BaseInterface\<close>.
\<close>

fun class_interface_type :: "interface_class \<Rightarrow> string option" where
  "class_interface_type DeployInterface = Some ''deploy''"
| "class_interface_type PowerInterface = Some ''power''"
| "class_interface_type ManagementInterface = Some ''management''"
| "class_interface_type cls = None"

definition instance_interface_type :: "interface_class \<Rightarrow> string" where
  "instance_interface_type cls =
     (case class_interface_type cls of Some itype \<Rightarrow> itype | None \<Rightarrow> ''base'')"

text \<open>
  An instance of an interface class: its class and, where \<open>BaseInterface.__new__\<close> built
  it, the state that \<open>__new__\<close> set. Instantiating a class that derives from \<open>object\<close>
  runs \<open>object.__new__\<close>, which sets nothing.
\<close>

datatype interface_instance = Instance interface_class "base_interface option"

definition interface_new :: "interface_class \<Rightarrow> (string \<times> member) list \<Rightarrow> py_error + interface_instance" where
  "interface_new cls members =
     (if derives_BaseInterface cls then
        (case BaseInterface_new (instance_interface_type cls) members of
           Inl e \<Rightarrow> Inl e
         | Inr self \<Rightarrow> Inr (Instance cls (Some self)))
      else Inr (Instance cls None))"

text \<open>
  \<open>instance.get_clean_steps(task)\<close>: the method of \<open>BaseInterface\<close> where the class
  inherits it; looking it up on an instance of any other class raises \<open>AttributeError\<close>.
\<close>

fun instance_get_clean_steps :: "interface_instance \<Rightarrow> task \<Rightarrow> py_error + clean_step_dict list" where
  "instance_get_clean_steps (Instance cls (Some self)) t = Inr (get_clean_steps self t)"
| "instance_get_clean_steps (Instance cls None) t = Inl AttributeError"

text \<open>
  Modelled from the spec: the ordering of the step queue at execution time (the conductor
  code that orders the discovered steps is not among the sources). The steps run in
  descending priority, and the sort is stable: steps of equal priority keep the order they
  have in the list handed in.
\<close>

definition execution_order :: "clean_step_dict list \<Rightarrow> clean_step_dict list" where
  "execution_order steps = sort_key (\<lambda>s. - priority s) steps"

text \<open>
  A method is well tagged when it carries a priority whenever it is marked as a clean
  step; \<open>def\<close> and \<open>clean_step\<close> only build such methods.
\<close>

definition well_tagged :: "func \<Rightarrow> bool" where
  "well_tagged f \<longleftrightarrow> (is_clean_step f \<longrightarrow> clean_step_priority f \<noteq> None)"

text \<open>
  What discovery is measured against: the \<open>__name__\<close> and priority of every method of
  the namespace that is tagged as a clean step, and the step dictionary made of them.
\<close>

fun tag_of :: "string \<times> member \<Rightarrow> (string \<times> int) option" where
  "tag_of (n, Method f) =
     (if is_clean_step f then map_option (\<lambda>p. (fname f, p)) (clean_step_priority f) else None)"
| "tag_of (n, Data) = None"

definition tagged_methods :: "(string \<times> member) list \<Rightarrow> (string \<times> int) list" where
  "tagged_methods members = List.map_filter tag_of members"

definition step_dict :: "string \<Rightarrow> string \<times> int \<Rightarrow> clean_step_dict" where
  "step_dict itype = (\<lambda>(n, p). \<lparr>step = n, priority = p, interface = itype\<rparr>)"

fun is_tagged :: "string \<times> member \<Rightarrow> bool" where
  "is_tagged (n, Method f) = is_clean_step f"
| "is_tagged (n, Data) = False"

section \<open>Vendor passthru wrapper (ironic/drivers/base.py)\<close>

text \<open>
  An exception object, as far as the handlers of \<open>passthru_handler\<close> tell exceptions
  apart: \<open>base\<close> is the most specific of the classes \<open>IronicException\<close>,
  \<open>Exception\<close> and \<open>BaseException\<close> that its class derives from (so \<open>Exception\<close>
  stands for the exceptions that are no \<open>IronicException\<close>, and \<open>BaseException\<close> for
  those that are no \<open>Exception\<close>, such as \<open>KeyboardInterrupt\<close>, \<open>SystemExit\<close> and
  \<open>GreenletExit\<close>); \<open>cls\<close> is the name of its class.
\<close>

datatype exc_base = IronicException | Exception | BaseException

record exc =
  base :: exc_base
  cls :: string
  message :: string

datatype 'a outcome = Return 'a | Raise exc

text \<open>\<open>exception.VendorPassthruException(message=e)\<close>, an \<open>IronicException\<close>.\<close>

definition VendorPassthruException :: "exc \<Rightarrow> exc" where
  "VendorPassthruException e =
     \<lparr>base = IronicException, cls = ''VendorPassthruException'', message = message e\<rparr>"

text \<open>
  The wrapper \<open>passthru_handler\<close> that \<open>_passthru\<close> returns in place of \<open>func\<close>. The
  log is the list of messages written with \<open>LOG.exception\<close>, which does not fail;
  \<open>save_and_reraise_exception\<close> then raises the exception it saved. An exception that
  neither handler matches propagates, and nothing is logged.
\<close>

definition passthru_logmessage :: "string \<Rightarrow> string" where
  "passthru_logmessage api_method = ''vendor_passthru failed with method '' @ api_method"

definition passthru_handler ::
  "string \<Rightarrow> ('args \<Rightarrow> 'a outcome) \<Rightarrow> 'args \<Rightarrow> string list \<Rightarrow> 'a outcome \<times> string list" where
  "passthru_handler api_method func args log =
     (case func args of
        Return v \<Rightarrow> (Return v, log)
      | Raise e \<Rightarrow>
          (case base e of
             IronicException \<Rightarrow> (Raise e, log @ [passthru_logmessage api_method])
           | Exception \<Rightarrow>
               (Raise (VendorPassthruException e), log @ [passthru_logmessage api_method])
           | BaseException \<Rightarrow> (Raise e, log)))"

text \<open>\<open>handle_passthru\<close>: the name logged is \<open>method\<close>, or \<open>func.__name__\<close> when it is None.\<close>

definition handle_passthru ::
  "string option \<Rightarrow> string \<Rightarrow> ('args \<Rightarrow> 'a outcome) \<Rightarrow> 'args \<Rightarrow> string list \<Rightarrow> 'a outcome \<times> string list" where
  "handle_passthru meth func_name func =
     passthru_handler (case meth of None \<Rightarrow> func_name | Some m \<Rightarrow> m) func"

text \<open>Two passthru functions to run the wrapper on.\<close>

definition KeyboardInterrupt :: exc where
  "KeyboardInterrupt = \<lparr>base = BaseException, cls = ''KeyboardInterrupt'', message = []\<rparr>"

definition interrupted :: "unit \<Rightarrow> unit outcome" where
  "interrupted u = Raise KeyboardInterrupt"

definition failing :: "unit \<Rightarrow> unit outcome" where
  "failing u = Raise \<lparr>base = Exception, cls = ''KeyError'', message = ''bmc''\<rparr>"

section \<open>Driver capability set (ironic/drivers/base.py)\<close>

text \<open>
  The class \<open>BaseDriver\<close>: one attribute for each interface, holding the interface
  instance or None. The class body sets every attribute to None and builds the two lists
  by appending the names in this order (the line that would append \<open>rescue\<close> is
  commented out in the source). The attribute \<open>power\<close> is the field
  \<open>power_interface\<close> here.
\<close>

record 'i base_driver =
  power_interface :: "'i option"
  deploy :: "'i option"
  console :: "'i option"
  rescue :: "'i option"
  management :: "'i option"
  vendor :: "'i option"
  inspect :: "'i option"

definition BaseDriver :: "'i base_driver" where
  "BaseDriver = \<lparr>power_interface = None, deploy = None, console = None, rescue = None,
     management = None, vendor = None, inspect = None\<rparr>"

definition core_interfaces :: "string list" where
  "core_interfaces = ([] @ [''power'']) @ [''deploy'']"

definition standard_interfaces :: "string list" where
  "standard_interfaces = (([] @ [''console'']) @ [''management'']) @ [''inspect'']"

text \<open>\<open>getattr(self, iface_name, None)\<close>\<close>

definition getattr :: "'i base_driver \<Rightarrow> string \<Rightarrow> 'i option" where
  "getattr self iface_name =
     (if iface_name = ''power'' then power_interface self
      else if iface_name = ''deploy'' then deploy self
      else if iface_name = ''console'' then console self
      else if iface_name = ''rescue'' then rescue self
      else if iface_name = ''management'' then management self
      else if iface_name = ''vendor'' then vendor self
      else if iface_name = ''inspect'' then inspect self
      else None)"

text \<open>
  Modelled from the spec: the check the driver registry makes when it loads a driver (the
  registry is not among the sources). Loading fails with \<open>DriverLoadError\<close> if a
  mandatory capability is missing, the mandatory ones being the core interfaces.
\<close>

definition load_driver :: "'i base_driver \<Rightarrow> py_error + 'i base_driver" where
  "load_driver driver =
     (if list_ex (\<lambda>iface_name. getattr driver iface_name = None) core_interfaces
      then Inl DriverLoadError else Inr driver)"

section \<open>Python values\<close>

text \<open>
  The Python values that reach the modelled code: the JSON-like values of a node's
  \<open>driver_info\<close> and the values \<open>ast.literal_eval\<close> builds (floating point numbers
  left out). A dictionary is the list of its items, each key once.
\<close>

datatype pyval =
    PyNone
  | PyBool bool
  | PyInt int
  | PyStr string
  | PyList "pyval list"
  | PyTuple "pyval list"
  | PyDict "(pyval \<times> pyval) list"

text \<open>\<open>d[k] = v\<close> on the items of a dictionary.\<close>

fun setitem :: "('k \<times> 'v) list \<Rightarrow> 'k \<Rightarrow> 'v \<Rightarrow> ('k \<times> 'v) list" where
  "setitem [] k v = [(k, v)]"
| "setitem ((k', v') # d) k v =
     (if k' = k then (k', v) # d else (k', v') # setitem d k v)"

text \<open>Truth value testing, as in \<open>if value:\<close>.\<close>

fun truthy :: "pyval \<Rightarrow> bool" where
  "truthy PyNone = False"
| "truthy (PyBool b) = b"
| "truthy (PyInt n) = (n \<noteq> 0)"
| "truthy (PyStr s) = (s \<noteq> [])"
| "truthy (PyList xs) = (xs \<noteq> [])"
| "truthy (PyTuple xs) = (xs \<noteq> [])"
| "truthy (PyDict d) = (d \<noteq> [])"

text \<open>
  The builtin \<open>dict(value)\<close>. A dictionary is copied; a list or tuple must hold
  sequences of two items, key and value, and the keys must be hashable; iterating a string
  yields its characters, one-character strings, so only the empty string gives a
  dictionary; anything else is not iterable. Keys are compared as they are written (the
  equality of \<open>1\<close> and \<open>True\<close> as keys is not modelled).
\<close>

fun hashable :: "pyval \<Rightarrow> bool" where
  "hashable (PyList xs) = False"
| "hashable (PyDict d) = False"
| "hashable (PyTuple xs) = list_all hashable xs"
| "hashable v = True"

fun pair_of :: "pyval \<Rightarrow> py_error + (pyval \<times> pyval)" where
  "pair_of (PyList [k, v]) = Inr (k, v)"
| "pair_of (PyTuple [k, v]) = Inr (k, v)"
| "pair_of (PyStr [a, b]) = Inr (PyStr [a], PyStr [b])"
| "pair_of (PyDict [(k1, v1), (k2, v2)]) = Inr (k1, k2)"
| "pair_of (PyList xs) = Inl ValueError"
| "pair_of (PyTuple xs) = Inl ValueError"
| "pair_of (PyStr s) = Inl ValueError"
| "pair_of (PyDict d) = Inl ValueError"
| "pair_of v = Inl TypeError"

fun dict_update :: "(pyval \<times> pyval) list \<Rightarrow> pyval list \<Rightarrow> py_error + (pyval \<times> pyval) list" where
  "dict_update d [] = Inr d"
| "dict_update d (x # xs) =
     (case pair_of x of
        Inl e \<Rightarrow> Inl e
      | Inr (k, v) \<Rightarrow> if hashable k then dict_update (setitem d k v) xs else Inl TypeError)"

fun py_dict :: "pyval \<Rightarrow> py_error + pyval" where
  "py_dict (PyDict d) = Inr (PyDict d)"
| "py_dict (PyList xs) = (case dict_update [] xs of Inl e \<Rightarrow> Inl e | Inr d \<Rightarrow> Inr (PyDict d))"
| "py_dict (PyTuple xs) = (case dict_update [] xs of Inl e \<Rightarrow> Inl e | Inr d \<Rightarrow> Inr (PyDict d))"
| "py_dict (PyStr s) =
     (case dict_update [] (map (\<lambda>c. PyStr [c]) s) of Inl e \<Rightarrow> Inl e | Inr d \<Rightarrow> Inr (PyDict d))"
| "py_dict v = Inl TypeError"

fun is_dict :: "pyval \<Rightarrow> bool" where
  "is_dict (PyDict d) = True"
| "is_dict v = False"

section \<open>Object fields (ironic/objects/fields.py)\<close>

text \<open>
  \<open>FlexibleDict.coerce(obj, attr, value)\<close>. \<open>ast.literal_eval\<close>, the parser of Python
  literals, is a parameter: it yields the value a string denotes, or raises.
\<close>

definition FlexibleDict_coerce :: "(string \<Rightarrow> py_error + pyval) \<Rightarrow> pyval \<Rightarrow> py_error + pyval" where
  "FlexibleDict_coerce literal_eval value =
     (case value of
        PyStr s \<Rightarrow> (case literal_eval s of Inl e \<Rightarrow> Inl e | Inr v \<Rightarrow> py_dict v)
      | _ \<Rightarrow> py_dict value)"

text \<open>
  A field: whether it is nullable, and its default, if one is given. \<open>Field_null\<close> and
  \<open>Field_coerce\<close> are \<open>Field._null\<close> and \<open>Field.coerce\<close> of oslo.versionedobjects, which
  \<open>FlexibleDictField\<close> inherits: \<open>coerce\<close> hands None to \<open>self._null\<close> and everything
  else to the \<open>coerce\<close> of the field's type.
\<close>

record field =
  nullable :: bool
  default :: "pyval option"

definition Field_null :: "(pyval \<Rightarrow> py_error + pyval) \<Rightarrow> field \<Rightarrow> py_error + pyval" where
  "Field_null type_coerce self =
     (if nullable self then Inr PyNone
      else case default self of
             Some d \<Rightarrow> type_coerce d
           | None \<Rightarrow> Inl ValueError)"

text \<open>
  \<open>FlexibleDictField._null\<close>: the empty dictionary for a nullable field; otherwise the
  inherited \<open>_null\<close> is called and, unless it raises, its result is dropped.
\<close>

definition FlexibleDictField_null :: "(string \<Rightarrow> py_error + pyval) \<Rightarrow> field \<Rightarrow> py_error + pyval" where
  "FlexibleDictField_null literal_eval self =
     (if nullable self then Inr (PyDict [])
      else case Field_null (FlexibleDict_coerce literal_eval) self of
             Inl e \<Rightarrow> Inl e
           | Inr v \<Rightarrow> Inr PyNone)"

definition Field_coerce :: "(string \<Rightarrow> py_error + pyval) \<Rightarrow> field \<Rightarrow> pyval \<Rightarrow> py_error + pyval" where
  "Field_coerce literal_eval self value =
     (if value = PyNone then FlexibleDictField_null literal_eval self
      else FlexibleDict_coerce literal_eval value)"

text \<open>\<open>_Callable.__call__(value)\<close> is \<open>self.coerce(None, None, value)\<close>.\<close>

definition FlexibleDictField_call :: "(string \<Rightarrow> py_error + pyval) \<Rightarrow> field \<Rightarrow> pyval \<Rightarrow> py_error + pyval" where
  "FlexibleDictField_call literal_eval self value = Field_coerce literal_eval self value"

text \<open>
  \<open>ast.literal_eval\<close> on the strings of the examples below: \<open>[[1, 2]]\<close> denotes a list
  holding one list, \<open>{}\<close> the empty dictionary; \<open>{\<close> is not a literal.
\<close>

definition literal_eval_example :: "string \<Rightarrow> py_error + pyval" where
  "literal_eval_example s =
     (if s = ''[[1, 2]]'' then Inr (PyList [PyList [PyInt 1, PyInt 2]])
      else if s = ''{}'' then Inr (PyDict [])
      else Inl SyntaxError)"

section \<open>iLO driver info (ironic/drivers/modules/ilo/common.py)\<close>

text \<open>
  The builtin \<open>int(value)\<close>. An integer is returned as it is and a boolean as 0 or 1. A
  string is stripped of surrounding whitespace and must then be an optional sign followed
  by decimal digits, and nothing else; otherwise \<open>ValueError\<close> is raised. None, lists,
  tuples and dictionaries raise \<open>TypeError\<close>.
\<close>

definition is_space :: "char \<Rightarrow> bool" where
  "is_space c \<longleftrightarrow> c \<in> set [CHR '' '', CHR 0x09, CHR 0x0A, CHR 0x0B, CHR 0x0C, CHR 0x0D]"

definition strip :: "string \<Rightarrow> string" where
  "strip s = rev (dropWhile is_space (rev (dropWhile is_space s)))"

definition is_digit :: "char \<Rightarrow> bool" where
  "is_digit c \<longleftrightarrow> c \<in> set ''0123456789''"

definition digit_value :: "char \<Rightarrow> int" where
  "digit_value c = int (of_char c) - 48"

definition digits_value :: "string \<Rightarrow> int option" where
  "digits_value ds =
     (if ds \<noteq> [] \<and> list_all is_digit ds
      then Some (foldl (\<lambda>n c. 10 * n + digit_value c) 0 ds) else None)"

definition int_of_string :: "string \<Rightarrow> int option" where
  "int_of_string s =
     (case strip s of
        [] \<Rightarrow> None
      | c # ds \<Rightarrow>
          if c = CHR ''-'' then map_option uminus (digits_value ds)
          else if c = CHR ''+'' then digits_value ds
          else digits_value (c # ds))"

fun py_int :: "pyval \<Rightarrow> py_error + int" where
  "py_int (PyInt n) = Inr n"
| "py_int (PyBool b) = Inr (if b then 1 else 0)"
| "py_int (PyStr s) = (case int_of_string s of Some n \<Rightarrow> Inr n | None \<Rightarrow> Inl ValueError)"
| "py_int v = Inl TypeError"

text \<open>
  The names of the properties, the keys of the three dictionaries of the module. The loops
  of \<open>parse_driver_info\<close> run over the keys of a dictionary, in an order the interpreter
  fixes; they are listed here in the order they are written in.
\<close>

definition REQUIRED_PROPERTIES :: "string list" where
  "REQUIRED_PROPERTIES = [''ilo_address'', ''ilo_username'', ''ilo_password'']"

definition OPTIONAL_PROPERTIES :: "string list" where
  "OPTIONAL_PROPERTIES = [''client_port'', ''client_timeout'']"

definition CONSOLE_PROPERTIES :: "string list" where
  "CONSOLE_PROPERTIES = [''console_port'']"

text \<open>
  The options of the group \<open>ilo\<close> that the parser reads, both integer options (60 and 443
  unless configured), and \<open>CONF.ilo.get(param)\<close>.
\<close>

record ilo_conf =
  client_timeout :: int
  client_port :: int

definition conf_get :: "ilo_conf \<Rightarrow> string \<Rightarrow> pyval" where
  "conf_get conf param =
     (if param = ''client_timeout'' then PyInt (client_timeout conf)
      else if param = ''client_port'' then PyInt (client_port conf)
      else PyNone)"

text \<open>
  \<open>info.get(param, default)\<close> on the node's \<open>driver_info\<close>, a dictionary from strings to
  values, given by its items.
\<close>

definition dict_get :: "(string \<times> pyval) list \<Rightarrow> string \<Rightarrow> pyval \<Rightarrow> pyval" where
  "dict_get info param dflt = (case map_of info param of Some v \<Rightarrow> v | None \<Rightarrow> dflt)"

text \<open>
  The three loops of \<open>parse_driver_info\<close>, each over the names still to visit, with the
  state they update: \<open>d_info\<close> and the list of names collected. \<open>info[param]\<close> raises
  \<open>KeyError\<close> where the key is absent, which the first loop catches. The other loops catch
  \<open>ValueError\<close> only: any other exception of \<open>int\<close> ends the function.
\<close>

fun required_loop ::
  "(string \<times> pyval) list \<Rightarrow> string list \<Rightarrow> (string \<times> pyval) list \<times> string list
     \<Rightarrow> (string \<times> pyval) list \<times> string list" where
  "required_loop info [] (d_info, missing_info) = (d_info, missing_info)"
| "required_loop info (param # params) (d_info, missing_info) =
     (case map_of info param of
        Some v \<Rightarrow> required_loop info params (setitem d_info param v, missing_info)
      | None \<Rightarrow> required_loop info params (d_info, missing_info @ [param]))"

fun optional_loop ::
  "ilo_conf \<Rightarrow> (string \<times> pyval) list \<Rightarrow> string list \<Rightarrow> (string \<times> pyval) list \<times> string list
     \<Rightarrow> py_error + (string \<times> pyval) list \<times> string list" where
  "optional_loop conf info [] (d_info, not_integers) = Inr (d_info, not_integers)"
| "optional_loop conf info (param # params) (d_info, not_integers) =
     (case py_int (dict_get info param (conf_get conf param)) of
        Inr n \<Rightarrow> optional_loop conf info params (setitem d_info param (PyInt n), not_integers)
      | Inl e \<Rightarrow>
          if e = ValueError then optional_loop conf info params (d_info, not_integers @ [param])
          else Inl e)"

fun console_loop ::
  "(string \<times> pyval) list \<Rightarrow> string list \<Rightarrow> (string \<times> pyval) list \<times> string list
     \<Rightarrow> py_error + (string \<times> pyval) list \<times> string list" where
  "console_loop info [] (d_info, not_integers) = Inr (d_info, not_integers)"
| "console_loop info (param # params) (d_info, not_integers) =
     (if truthy (dict_get info param PyNone) then
        (case py_int (dict_get info param PyNone) of
           Inr n \<Rightarrow> console_loop info params (setitem d_info param (PyInt n), not_integers)
         | Inl e \<Rightarrow>
             if e = ValueError then console_loop info params (d_info, not_integers @ [param])
             else Inl e)
      else console_loop info params (d_info, not_integers))"

definition parse_driver_info ::
  "ilo_conf \<Rightarrow> (string \<times> pyval) list \<Rightarrow> py_error + (string \<times> pyval) list" where
  "parse_driver_info conf info =
     (case required_loop info REQUIRED_PROPERTIES ([], []) of
        (d_info, missing_info) \<Rightarrow>
          if missing_info \<noteq> [] then Inl (MissingParameterValue missing_info)
          else
            (case optional_loop conf info OPTIONAL_PROPERTIES (d_info, []) of
               Inl e \<Rightarrow> Inl e
             | Inr (d_info, not_integers) \<Rightarrow>
                 (case console_loop info CONSOLE_PROPERTIES (d_info, not_integers) of
                    Inl e \<Rightarrow> Inl e
                  | Inr (d_info, not_integers) \<Rightarrow>
                      if not_integers \<noteq> [] then Inl (InvalidParameterValue not_integers)
                      else Inr d_info)))"

section \<open>Task lease manager\<close>

text \<open>
  Modelled from the spec: the task lease manager (\<open>ironic.conductor.task_manager\<close> and the
  node store it updates are not among the sources). A lease pairs a holder with an
  exclusivity flag; the store keeps, for every node it knows, the leases held on it.
\<close>

record lease =
  holder :: string
  exclusive :: bool

text \<open>Modelled from the spec: the store, from node identities to the leases held on the node.\<close>

type_synonym store = "string \<rightharpoonup> lease list"

text \<open>Modelled from the spec: the leases held on a node, none for a node the store does not know.\<close>

definition leases_of :: "store \<Rightarrow> string \<Rightarrow> lease list" where
  "leases_of s node_id = (case s node_id of Some leases \<Rightarrow> leases | None \<Rightarrow> [])"

text \<open>
  Modelled from the spec: the leases that block an acquisition, any lease for an exclusive
  one, an exclusive lease for a shared one.
\<close>

definition conflicting :: "bool \<Rightarrow> lease list \<Rightarrow> bool" where
  "conflicting exclusive_wanted leases =
     (if exclusive_wanted then leases \<noteq> [] else list_ex exclusive leases)"

text \<open>
  Modelled from the spec: \<open>acquire(node_id, exclusive, holder_id)\<close> is one atomic
  conditional update of the store. An exclusive lease is granted only if no lease is held
  on the node, a shared one if no exclusive lease is held; otherwise the call fails with
  \<open>NodeLocked\<close>, and with \<open>NodeNotFound\<close> if the store has no such node.
\<close>

definition acquire :: "store \<Rightarrow> string \<Rightarrow> bool \<Rightarrow> string \<Rightarrow> py_error + store" where
  "acquire s node_id exclusive_wanted holder_id =
     (case s node_id of
        None \<Rightarrow> Inl NodeNotFound
      | Some leases \<Rightarrow>
          if conflicting exclusive_wanted leases then Inl NodeLocked
          else Inr (s(node_id \<mapsto> leases @ [\<lparr>holder = holder_id, exclusive = exclusive_wanted\<rparr>])))"

text \<open>
  Modelled from the spec: releasing clears the holder's leases on the node, and releasing
  again changes nothing; \<open>upgrade\<close> turns the shared lease of a holder into an exclusive
  one if no other holder has a lease on the node, and fails with \<open>NodeLocked\<close> otherwise;
  the reclamation sweep clears the leases of the holders it found dead.
\<close>

definition release :: "store \<Rightarrow> string \<Rightarrow> string \<Rightarrow> store" where
  "release s node_id holder_id =
     (case s node_id of
        None \<Rightarrow> s
      | Some leases \<Rightarrow> s(node_id \<mapsto> filter (\<lambda>l. holder l \<noteq> holder_id) leases))"

text \<open>Modelled from the spec: \<open>upgrade\<close>, as described above.\<close>

definition upgrade :: "store \<Rightarrow> string \<Rightarrow> string \<Rightarrow> py_error + store" where
  "upgrade s node_id holder_id =
     (case s node_id of
        None \<Rightarrow> Inl NodeNotFound
      | Some leases \<Rightarrow>
          if leases \<noteq> [] \<and> list_all (\<lambda>l. holder l = holder_id) leases
          then Inr (s(node_id \<mapsto> [\<lparr>holder = holder_id, exclusive = True\<rparr>]))
          else Inl NodeLocked)"

text \<open>Modelled from the spec: the reclamation sweep, given the holders it found dead.\<close>

definition reclaim :: "store \<Rightarrow> string \<Rightarrow> string list \<Rightarrow> store" where
  "reclaim s node_id dead =
     (case s node_id of
        None \<Rightarrow> s
      | Some leases \<Rightarrow> s(node_id \<mapsto> filter (\<lambda>l. holder l \<notin> set dead) leases))"

text \<open>
  Modelled from the spec: the workers' calls reach the store one at a time, in any order.
  A call that fails leaves the store as it was. Initially the store knows the enrolled
  nodes, none of them leased.
\<close>

datatype call =
    Acquire string bool string
  | Release string string
  | Upgrade string string
  | Reclaim string "string list"

text \<open>Modelled from the spec: the effect of one call on the store.\<close>

fun perform :: "store \<Rightarrow> call \<Rightarrow> store" where
  "perform s (Acquire node_id exclusive_wanted holder_id) =
     (case acquire s node_id exclusive_wanted holder_id of Inl e \<Rightarrow> s | Inr s' \<Rightarrow> s')"
| "perform s (Release node_id holder_id) = release s node_id holder_id"
| "perform s (Upgrade node_id holder_id) =
     (case upgrade s node_id holder_id of Inl e \<Rightarrow> s | Inr s' \<Rightarrow> s')"
| "perform s (Reclaim node_id dead) = reclaim s node_id dead"

text \<open>Modelled from the spec: the store of the enrolled nodes, no lease held.\<close>

definition enrolled :: "string list \<Rightarrow> store" where
  "enrolled nodes = map_of (map (\<lambda>node_id. (node_id, [])) nodes)"

text \<open>Modelled from the spec: the store after a sequence of calls.\<close>

definition run :: "string list \<Rightarrow> call list \<Rightarrow> store" where
  "run nodes calls = foldl perform (enrolled nodes) calls"

text \<open>Modelled from the spec: the holders of an exclusive lease on a node.\<close>

definition exclusive_holders :: "store \<Rightarrow> string \<Rightarrow> string list" where
  "exclusive_holders s node_id = map holder (filter exclusive (leases_of s node_id))"

text \<open>
  Modelled from the spec: an exclusive lease, if there is one among the leases of a node,
  is the only lease.
\<close>

definition exclusive_alone :: "lease list \<Rightarrow> bool" where
  "exclusive_alone leases \<longleftrightarrow> (list_ex exclusive leases \<longrightarrow> length leases = 1)"

section \<open>Periodic driver tasks (ironic/drivers/base.py)\<close>









section \<open>Properties of the DRAC power interface\<close>





text \<open>
  C5: the mutating power operations \<open>set_power_state\<close> and \<open>reboot\<close> run only on a
  task holding the exclusive lease: on a shared task they are refused with
  \<open>ExclusiveLockRequired\<close> and the node's endpoint is left as it was, so whenever one of
  them does anything else the lease is exclusive. The read-only \<open>get_power_state\<close> makes
  no such demand: it gives the same answer on a shared and on an exclusive task.
\<close>

theorem DracPower_mutations_need_exclusive_lock:
  "(shared t \<longrightarrow>
      DracPower_set_power_state t s w = (Inl ExclusiveLockRequired, w) \<and>
      DracPower_reboot t w = (Inl ExclusiveLockRequired, w)) \<and>
   (DracPower_set_power_state t s w \<noteq> (Inl ExclusiveLockRequired, w) \<longrightarrow> \<not> shared t) \<and>
   (DracPower_reboot t w \<noteq> (Inl ExclusiveLockRequired, w) \<longrightarrow> \<not> shared t) \<and>
   DracPower_get_power_state (t\<lparr>shared := True\<rparr>) w = drac_get_power_state w \<and>
   DracPower_get_power_state (t\<lparr>shared := False\<rparr>) w = drac_get_power_state w"
  by (simp add: DracPower_set_power_state_def DracPower_reboot_def
      DracPower_get_power_state_def require_exclusive_lock_def)

text \<open>
  On a shared task a power-on request is refused and nothing is sent, the same request on
  an exclusive task is sent, and the state is read on the shared task.
\<close>

theorem DracPower_mutations_need_exclusive_lock_witness:
  "DracPower_set_power_state \<lparr>node = ''n1'', shared = True\<rparr> POWER_ON
      \<lparr>client_error = None, enumerate_reply = Inr ''3'', invoke_reply = None, invoked = []\<rparr>
     = (Inl ExclusiveLockRequired,
        \<lparr>client_error = None, enumerate_reply = Inr ''3'', invoke_reply = None, invoked = []\<rparr>) \<and>
   \<not> shared \<lparr>node = ''n1'', shared = False\<rparr> \<and>
   DracPower_get_power_state \<lparr>node = ''n1'', shared = True\<rparr>
      \<lparr>client_error = None, enumerate_reply = Inr ''3'', invoke_reply = None, invoked = []\<rparr>
     = Inr POWER_OFF"
proof -
  let ?w = "\<lparr>client_error = None, enumerate_reply = Inr ''3'', invoke_reply = None,
       invoked = []\<rparr>"
  let ?sh = "\<lparr>node = ''n1'', shared = True\<rparr>"
  let ?ex = "\<lparr>node = ''n1'', shared = False\<rparr>"
  have g: "drac_get_power_state ?w = Inr POWER_OFF"
    by (simp add: drac_get_power_state_def POWER_STATES_def)
  have x: "DracPower_set_power_state ?ex POWER_ON ?w \<noteq> (Inl ExclusiveLockRequired, ?w)"
    by (simp add: DracPower_set_power_state_def require_exclusive_lock_def
        drac_set_power_state_def REVERSE_POWER_STATES_def POWER_STATES_def)
  from DracPower_mutations_need_exclusive_lock [of ?sh POWER_ON ?w]
  have a: "DracPower_set_power_state ?sh POWER_ON ?w = (Inl ExclusiveLockRequired, ?w)"
    and c: "DracPower_get_power_state ?sh ?w = drac_get_power_state ?w"
    by simp_all
  from DracPower_mutations_need_exclusive_lock [of ?ex POWER_ON ?w] x
  have b: "\<not> shared ?ex" by blast
  from a b c g show ?thesis by simp
qed

section \<open>Properties of clean step discovery\<close>

lemma well_tagged_def': "well_tagged (def n)"
  by (simp add: well_tagged_def def_def)

lemma well_tagged_clean_step: "well_tagged (clean_step p f)"
  by (simp add: well_tagged_def clean_step_def)

lemma find_clean_steps_tagged:
  "\<forall>(n, m) \<in> set ms. \<forall>f. m = Method f \<longrightarrow> well_tagged f \<Longrightarrow>
   find_clean_steps it ms = Inr (map (step_dict it) (tagged_methods ms))"
  by (induction it ms rule: find_clean_steps.induct)
     (auto simp: tagged_methods_def step_dict_def well_tagged_def map_filter_simps)

lemma tag_of_ismethod: "tag_of (n, v) = Some y \<Longrightarrow> ismethod v"
  by (cases v) auto

lemma filter_tagged_methods:
  "filter (\<lambda>x. tag_of x \<noteq> None) (filter (\<lambda>(n, v). ismethod v) ms)
     = filter (\<lambda>x. tag_of x \<noteq> None) ms"
  by (induction ms) (auto dest: tag_of_ismethod)

lemma mset_tagged_methods_getmembers:
  "mset (tagged_methods (getmembers ms ismethod)) = mset (tagged_methods ms)"
proof -
  have "mset (filter (\<lambda>x. tag_of x \<noteq> None) (getmembers ms ismethod))
        = mset (filter (\<lambda>x. tag_of x \<noteq> None) (filter (\<lambda>(n, v). ismethod v) ms))"
    by (simp only: getmembers_def mset_filter mset_sort)
  then have "mset (filter (\<lambda>x. tag_of x \<noteq> None) (getmembers ms ismethod))
        = mset (filter (\<lambda>x. tag_of x \<noteq> None) ms)"
    by (simp only: filter_tagged_methods)
  then show ?thesis
    by (simp only: tagged_methods_def map_filter_def mset_map)
qed

lemma getmembers_set: "set (getmembers ms p) \<subseteq> set ms"
  by (auto simp: getmembers_def)

lemma tag_of_is_tagged:
  "\<forall>(n, m) \<in> set ms. \<forall>f. m = Method f \<longrightarrow> well_tagged f \<Longrightarrow>
   filter (\<lambda>x. tag_of x \<noteq> None) ms = filter is_tagged ms"
proof (rule filter_cong [OF refl])
  fix x assume x: "x \<in> set ms"
  assume h: "\<forall>(n, m) \<in> set ms. \<forall>f. m = Method f \<longrightarrow> well_tagged f"
  show "(tag_of x \<noteq> None) = is_tagged x"
  proof (cases x rule: tag_of.cases)
    case (1 n f)
    with h x have "well_tagged f" by blast
    with 1 show ?thesis by (auto simp: well_tagged_def)
  next
    case (2 n)
    then show ?thesis by simp
  qed
qed

lemma set_map_filter:
  "set (List.map_filter f xs) = {y. \<exists>x \<in> set xs. f x = Some y}"
  by (induction xs) (auto simp: map_filter_simps split: option.splits)

lemma set_tagged_methods:
  "set (tagged_methods ms) =
     {(fname f, p) | n f p. (n, Method f) \<in> set ms \<and> is_clean_step f \<and> clean_step_priority f = Some p}"
proof -
  have "(\<exists>x \<in> set ms. tag_of x = Some y) \<longleftrightarrow>
        (\<exists>n f p. y = (fname f, p) \<and> (n, Method f) \<in> set ms \<and> is_clean_step f \<and>
           clean_step_priority f = Some p)" for y
  proof
    assume "\<exists>x \<in> set ms. tag_of x = Some y"
    then obtain x where x: "x \<in> set ms" "tag_of x = Some y" by blast
    then show "\<exists>n f p. y = (fname f, p) \<and> (n, Method f) \<in> set ms \<and> is_clean_step f \<and>
           clean_step_priority f = Some p"
      by (cases x rule: tag_of.cases) (auto split: if_splits)
  next
    assume "\<exists>n f p. y = (fname f, p) \<and> (n, Method f) \<in> set ms \<and> is_clean_step f \<and>
           clean_step_priority f = Some p"
    then obtain n f p where "y = (fname f, p)" "(n, Method f) \<in> set ms" "is_clean_step f"
      "clean_step_priority f = Some p" by blast
    then have "(n, Method f) \<in> set ms \<and> tag_of (n, Method f) = Some y" by simp
    then show "\<exists>x \<in> set ms. tag_of x = Some y" by blast
  qed
  then show ?thesis
    by (simp only: tagged_methods_def set_map_filter)
qed

lemma BaseInterface_new_discovers:
  assumes "\<forall>(n, m) \<in> set members. \<forall>f. m = Method f \<longrightarrow> well_tagged f"
  shows "\<exists>self. BaseInterface_new itype members = Inr self \<and>
           interface_type self = itype \<and>
           get_clean_steps self t = clean_steps self \<and>
           mset (clean_steps self) = mset (map (step_dict itype) (tagged_methods members)) \<and>
           length (clean_steps self) = length (filter is_tagged members) \<and>
           set (clean_steps self) =
             {\<lparr>step = fname f, priority = p, interface = itype\<rparr> | n f p.
                (n, Method f) \<in> set members \<and> is_clean_step f \<and> clean_step_priority f = Some p}"
proof -
  from assms getmembers_set [of members ismethod]
  have "\<forall>(n, m) \<in> set (getmembers members ismethod). \<forall>f. m = Method f \<longrightarrow> well_tagged f"
    by blast
  then have f: "find_clean_steps itype (getmembers members ismethod)
      = Inr (map (step_dict itype) (tagged_methods (getmembers members ismethod)))"
    by (rule find_clean_steps_tagged)
  define self where "self = \<lparr>interface_type = itype,
      clean_steps = map (step_dict itype) (tagged_methods (getmembers members ismethod))\<rparr>"
  have 1: "BaseInterface_new itype members = Inr self"
    by (simp add: BaseInterface_new_def f self_def)
  have 2: "interface_type self = itype" "get_clean_steps self t = clean_steps self"
    by (simp_all add: self_def get_clean_steps_def)
  have 3: "mset (clean_steps self) = mset (map (step_dict itype) (tagged_methods members))"
    by (simp add: self_def mset_tagged_methods_getmembers)
  have "length (clean_steps self) = length (tagged_methods members)"
    using mset_eq_length [OF 3] by simp
  also have "\<dots> = length (filter is_tagged members)"
    by (simp only: tagged_methods_def map_filter_def length_map tag_of_is_tagged [OF assms])
  finally have 4: "length (clean_steps self) = length (filter is_tagged members)" .
  have "set (clean_steps self) = step_dict itype ` set (tagged_methods members)"
    using mset_eq_setD [OF 3] by simp
  also have "\<dots> = {\<lparr>step = fname f, priority = p, interface = itype\<rparr> | n f p.
                (n, Method f) \<in> set members \<and> is_clean_step f \<and> clean_step_priority f = Some p}"
    unfolding set_tagged_methods by (auto simp: step_dict_def image_iff) blast
  finally have 5: "set (clean_steps self) =
             {\<lparr>step = fname f, priority = p, interface = itype\<rparr> | n f p.
                (n, Method f) \<in> set members \<and> is_clean_step f \<and> clean_step_priority f = Some p}" .
  show ?thesis
    by (rule exI [of _ self]) (simp only: 1 2 3 4 5 simp_thms)
qed

text \<open>
  C3, as the code has it. The interface classes that derive from \<open>BaseInterface\<close> are the
  deploy, power and management interfaces. For an instance of one of them whose methods are
  well tagged, \<open>__new__\<close> succeeds and the discovered list holds exactly one entry
  \<open>{step, priority, interface}\<close> for each method tagged as a clean step (equal as
  multisets, and as many entries as tagged methods), whatever the priority is, zero and
  negative ones included, and no entry for anything else; \<open>get_clean_steps\<close> returns that
  whole list. The console, rescue, vendor and inspect interfaces derive from \<open>object\<close>:
  their instances are built without a list of clean steps, whatever methods are tagged, and
  \<open>get_clean_steps\<close> raises \<open>AttributeError\<close> on them.
\<close>

theorem interface_new_clean_steps:
  assumes "\<forall>(n, m) \<in> set members. \<forall>f. m = Method f \<longrightarrow> well_tagged f"
  shows "(derives_BaseInterface klass \<longleftrightarrow>
            klass = DeployInterface \<or> klass = PowerInterface \<or> klass = ManagementInterface) \<and>
         (derives_BaseInterface klass \<longrightarrow>
            (\<exists>self. interface_new klass members = Inr (Instance klass (Some self)) \<and>
               interface_type self = instance_interface_type klass \<and>
               instance_get_clean_steps (Instance klass (Some self)) t = Inr (clean_steps self) \<and>
               mset (clean_steps self) =
                 mset (map (step_dict (instance_interface_type klass)) (tagged_methods members)) \<and>
               length (clean_steps self) = length (filter is_tagged members) \<and>
               set (clean_steps self) =
                 {\<lparr>step = fname f, priority = p, interface = instance_interface_type klass\<rparr> | n f p.
                    (n, Method f) \<in> set members \<and> is_clean_step f \<and>
                    clean_step_priority f = Some p})) \<and>
         (\<not> derives_BaseInterface klass \<longrightarrow>
            interface_new klass members = Inr (Instance klass None) \<and>
            instance_get_clean_steps (Instance klass None) t = Inl AttributeError)"
proof (intro conjI impI)
  show "derives_BaseInterface klass \<longleftrightarrow>
          klass = DeployInterface \<or> klass = PowerInterface \<or> klass = ManagementInterface"
    by (cases klass) simp_all
next
  assume d: "derives_BaseInterface klass"
  let ?it = "instance_interface_type klass"
  from BaseInterface_new_discovers [OF assms, of ?it t]
  obtain self where s: "BaseInterface_new ?it members = Inr self"
    "interface_type self = ?it"
    "get_clean_steps self t = clean_steps self"
    "mset (clean_steps self) = mset (map (step_dict ?it) (tagged_methods members))"
    "length (clean_steps self) = length (filter is_tagged members)"
    "set (clean_steps self) =
       {\<lparr>step = fname f, priority = p, interface = ?it\<rparr> | n f p.
          (n, Method f) \<in> set members \<and> is_clean_step f \<and> clean_step_priority f = Some p}"
    by (elim exE conjE) (rule that)
  have 1: "interface_new klass members = Inr (Instance klass (Some self))"
    using d by (simp add: interface_new_def s(1))
  have 2: "instance_get_clean_steps (Instance klass (Some self)) t = Inr (clean_steps self)"
    by (simp add: s(3))
  show "\<exists>self. interface_new klass members = Inr (Instance klass (Some self)) \<and>
               interface_type self = instance_interface_type klass \<and>
               instance_get_clean_steps (Instance klass (Some self)) t = Inr (clean_steps self) \<and>
               mset (clean_steps self) =
                 mset (map (step_dict (instance_interface_type klass)) (tagged_methods members)) \<and>
               length (clean_steps self) = length (filter is_tagged members) \<and>
               set (clean_steps self) =
                 {\<lparr>step = fname f, priority = p, interface = instance_interface_type klass\<rparr> | n f p.
                    (n, Method f) \<in> set members \<and> is_clean_step f \<and>
                    clean_step_priority f = Some p}"
    by (rule exI [of _ self]) (simp only: 1 2 s(2,4,5,6) simp_thms)
next
  assume "\<not> derives_BaseInterface klass"
  then show "interface_new klass members = Inr (Instance klass None)"
    by (simp add: interface_new_def)
next
  show "instance_get_clean_steps (Instance klass None) t = Inl AttributeError"
    by simp
qed

text \<open>
  A deploy interface with steps of priority 10, 0 and -5, an untagged method and a data
  attribute: three entries, one for each tagged method. A console interface with the same
  namespace: no list, and \<open>get_clean_steps\<close> raises.
\<close>

theorem interface_new_clean_steps_witness:
  "(\<exists>self. interface_new DeployInterface
       [(''erase_disks'', Method (clean_step 10 (def ''erase_disks''))),
        (''zap_raid'', Method (clean_step 0 (def ''zap_raid''))),
        (''validate'', Method (def ''validate'')),
        (''interface_type'', Data),
        (''flash_bios'', Method (clean_step (- 5) (def ''flash_bios'')))]
         = Inr (Instance DeployInterface (Some self)) \<and>
     instance_get_clean_steps (Instance DeployInterface (Some self)) \<lparr>node = ''n1'', shared = False\<rparr>
       = Inr (clean_steps self) \<and>
     length (clean_steps self) = 3 \<and>
     set (clean_steps self) =
       {\<lparr>step = ''erase_disks'', priority = 10, interface = ''deploy''\<rparr>,
        \<lparr>step = ''zap_raid'', priority = 0, interface = ''deploy''\<rparr>,
        \<lparr>step = ''flash_bios'', priority = - 5, interface = ''deploy''\<rparr>}) \<and>
   interface_new ConsoleInterface
       [(''erase_disks'', Method (clean_step 10 (def ''erase_disks''))),
        (''zap_raid'', Method (clean_step 0 (def ''zap_raid''))),
        (''validate'', Method (def ''validate'')),
        (''interface_type'', Data),
        (''flash_bios'', Method (clean_step (- 5) (def ''flash_bios'')))]
         = Inr (Instance ConsoleInterface None) \<and>
   instance_get_clean_steps (Instance ConsoleInterface None) \<lparr>node = ''n1'', shared = False\<rparr>
     = Inl AttributeError"
proof -
  let ?ms = "[(''erase_disks'', Method (clean_step 10 (def ''erase_disks''))),
        (''zap_raid'', Method (clean_step 0 (def ''zap_raid''))),
        (''validate'', Method (def ''validate'')),
        (''interface_type'', Data),
        (''flash_bios'', Method (clean_step (- 5) (def ''flash_bios'')))]"
  let ?t = "\<lparr>node = ''n1'', shared = False\<rparr>"
  have h: "\<forall>(n, m) \<in> set ?ms. \<forall>f. m = Method f \<longrightarrow> well_tagged f"
    by (simp add: well_tagged_def clean_step_def def_def)
  have dd: "derives_BaseInterface DeployInterface" by simp
  have dc: "\<not> derives_BaseInterface ConsoleInterface" by simp
  have it: "instance_interface_type DeployInterface = ''deploy''"
    by (simp add: instance_interface_type_def)
  note deploy = interface_new_clean_steps [OF h, of DeployInterface ?t,
      THEN conjunct2, THEN conjunct1, rule_format, OF dd]
  note console = interface_new_clean_steps [OF h, of ConsoleInterface ?t,
      THEN conjunct2, THEN conjunct2, rule_format, OF dc]
  from deploy obtain self where
    s: "interface_new DeployInterface ?ms = Inr (Instance DeployInterface (Some self))"
    "instance_get_clean_steps (Instance DeployInterface (Some self)) ?t = Inr (clean_steps self)"
    "mset (clean_steps self) =
       mset (map (step_dict (instance_interface_type DeployInterface)) (tagged_methods ?ms))"
    "length (clean_steps self) = length (filter is_tagged ?ms)"
    by (elim exE conjE) (rule that)
  have t: "tagged_methods ?ms = [(''erase_disks'', 10), (''zap_raid'', 0), (''flash_bios'', - 5)]"
    by (simp add: tagged_methods_def map_filter_simps clean_step_def def_def)
  have "set (clean_steps self) = set (map (step_dict ''deploy'') (tagged_methods ?ms))"
    using mset_eq_setD [OF s(3)] by (simp only: it)
  then have 5: "set (clean_steps self) =
       {\<lparr>step = ''erase_disks'', priority = 10, interface = ''deploy''\<rparr>,
        \<lparr>step = ''zap_raid'', priority = 0, interface = ''deploy''\<rparr>,
        \<lparr>step = ''flash_bios'', priority = - 5, interface = ''deploy''\<rparr>}"
    by (simp add: t step_dict_def)
  have 4: "length (clean_steps self) = 3"
    using s(4) by (simp add: clean_step_def def_def)
  have a: "\<exists>self. interface_new DeployInterface ?ms = Inr (Instance DeployInterface (Some self)) \<and>
     instance_get_clean_steps (Instance DeployInterface (Some self)) ?t = Inr (clean_steps self) \<and>
     length (clean_steps self) = 3 \<and>
     set (clean_steps self) =
       {\<lparr>step = ''erase_disks'', priority = 10, interface = ''deploy''\<rparr>,
        \<lparr>step = ''zap_raid'', priority = 0, interface = ''deploy''\<rparr>,
        \<lparr>step = ''flash_bios'', priority = - 5, interface = ''deploy''\<rparr>}"
    by (rule exI [of _ self]) (simp only: s(1,2) 4 5 simp_thms)
  from a console show ?thesis by (intro conjI) (elim conjE, assumption)+
qed

text \<open>
  C3 as stated fails for the interfaces that derive from \<open>object\<close>: a console interface
  with one method tagged as a clean step has no discovered list, and asking it for its
  clean steps raises \<open>AttributeError\<close>.
\<close>

theorem interface_new_console_counterexample:
  "length (filter is_tagged [(''zap_console'', Method (clean_step 10 (def ''zap_console'')))]) = 1 \<and>
   interface_new ConsoleInterface [(''zap_console'', Method (clean_step 10 (def ''zap_console'')))]
     = Inr (Instance ConsoleInterface None) \<and>
   instance_get_clean_steps (Instance ConsoleInterface None) \<lparr>node = ''n1'', shared = False\<rparr>
     = Inl AttributeError"
  by (simp add: interface_new_def clean_step_def def_def)

section \<open>Order of execution of clean steps\<close>

lemma execution_order_example:
  "priority a = 10 \<Longrightarrow> priority b = 50 \<Longrightarrow> priority c = 30 \<Longrightarrow> execution_order [a, b, c] = [b, c, a]"
  by (simp add: execution_order_def)

lemma sorted_getmembers: "sorted (map fst (getmembers ms p))"
  by (simp add: getmembers_def)

lemma find_clean_steps_sorted:
  "find_clean_steps it ms = Inr steps \<Longrightarrow>
   \<forall>(n, m) \<in> set ms. \<forall>f. m = Method f \<longrightarrow> fname f = n \<Longrightarrow>
   sorted (map fst ms) \<Longrightarrow> sorted (map step steps) \<and> set (map step steps) \<subseteq> set (map fst ms)"
proof (induction it ms arbitrary: steps rule: find_clean_steps.induct)
  case (1 it)
  then show ?case by simp
next
  case (2 it n rest)
  then show ?case by auto
next
  case (3 it n meth rest)
  show ?case
  proof (cases "is_clean_step meth")
    case False
    with 3 show ?thesis by auto
  next
    case True
    with 3(3) obtain p steps' where p: "clean_step_priority meth = Some p"
      and r: "find_clean_steps it rest = Inr steps'"
      and s: "steps = \<lparr>step = fname meth, priority = p, interface = it\<rparr> # steps'"
      by (auto split: option.splits sum.splits)
    from 3(4) have n: "fname meth = n" by simp
    from 3(1) [OF True p r] 3(4,5)
    have ih: "sorted (map step steps')" "set (map step steps') \<subseteq> set (map fst rest)"
      by auto
    from 3(5) have "\<forall>x \<in> set (map fst rest). n \<le> x" by simp
    with ih(2) have "\<forall>x \<in> set (map step steps'). n \<le> x" by blast
    with ih s n show ?thesis by auto
  qed
qed


lemma BaseInterface_new_sorted:
  assumes "BaseInterface_new it ms = Inr self"
    and "\<forall>(n, m) \<in> set ms. \<forall>f. m = Method f \<longrightarrow> fname f = n"
  shows "sorted (map step (clean_steps self))"
proof -
  from assms(1) obtain steps where f: "find_clean_steps it (getmembers ms ismethod) = Inr steps"
    and s: "clean_steps self = steps"
    by (auto simp: BaseInterface_new_def split: sum.splits)
  from assms(2) getmembers_set [of ms ismethod]
  have "\<forall>(n, m) \<in> set (getmembers ms ismethod). \<forall>f. m = Method f \<longrightarrow> fname f = n"
    by blast
  from find_clean_steps_sorted [OF f this sorted_getmembers] s show ?thesis by simp
qed

lemma find_clean_steps_order:
  "find_clean_steps it ms = Inr steps \<Longrightarrow> steps = map (step_dict it) (tagged_methods ms)"
  by (induction it ms arbitrary: steps rule: find_clean_steps.induct)
     (auto simp: tagged_methods_def step_dict_def map_filter_simps
           split: if_splits option.splits sum.splits)

lemma BaseInterface_new_order:
  assumes "BaseInterface_new it ms = Inr self"
  shows "clean_steps self = map (step_dict it) (tagged_methods (getmembers ms ismethod))"
proof -
  from assms obtain steps where f: "find_clean_steps it (getmembers ms ismethod) = Inr steps"
    and s: "clean_steps self = steps"
    by (auto simp: BaseInterface_new_def split: sum.splits)
  from find_clean_steps_order [OF f] s show ?thesis by simp
qed

lemma mset_getmembers: "mset (getmembers ms p) = mset (filter (\<lambda>(n, v). p v) ms)"
  by (simp only: getmembers_def mset_sort)

text \<open>
  C2, as the code has it: the steps run in descending priority, the execution order is a
  rearrangement of the discovered list in which steps of equal priority keep the order
  they were discovered in, and priorities 10, 50, 30 run as 50, 30, 10. Discovery lists
  the tagged methods of an interface in the order of \<open>inspect.getmembers\<close>, which holds
  the methods of the namespace in ascending order of the attribute name each is bound
  under; so that, and not the order of declaration, is the order of equal-priority steps
  of an interface. Where every method is bound under its own \<open>__name__\<close>, the discovered
  steps are in ascending order of step name.
\<close>

theorem execution_order_descending_stable:
  "sorted_wrt (\<lambda>a b. priority b \<le> priority a) (execution_order steps) \<and>
   mset (execution_order steps) = mset steps \<and>
   (\<forall>k. filter (\<lambda>s. priority s = k) (execution_order steps) = filter (\<lambda>s. priority s = k) steps) \<and>
   (\<forall>a b c. priority a = 10 \<and> priority b = 50 \<and> priority c = 30 \<longrightarrow>
      execution_order [a, b, c] = [b, c, a]) \<and>
   (\<forall>it ms self. BaseInterface_new it ms = Inr self \<longrightarrow>
      clean_steps self = map (step_dict it) (tagged_methods (getmembers ms ismethod)) \<and>
      sorted (map fst (getmembers ms ismethod)) \<and>
      mset (getmembers ms ismethod) = mset (filter (\<lambda>(n, v). ismethod v) ms)) \<and>
   (\<forall>it ms self. BaseInterface_new it ms = Inr self \<and>
      (\<forall>(n, m) \<in> set ms. \<forall>f. m = Method f \<longrightarrow> fname f = n) \<longrightarrow>
      sorted (map step (clean_steps self)))"
proof (intro conjI allI impI)
  have "sorted (map (\<lambda>s. - priority s) (execution_order steps))"
    unfolding execution_order_def by (rule sorted_sort_key)
  then show "sorted_wrt (\<lambda>a b. priority b \<le> priority a) (execution_order steps)"
    by (simp add: sorted_map)
next
  show "mset (execution_order steps) = mset steps"
    by (simp add: execution_order_def)
next
  fix k
  have "filter (\<lambda>s. - priority s = - k) (execution_order steps)
      = filter (\<lambda>s. - priority s = - k) steps"
    unfolding execution_order_def by (rule sort_key_stable)
  then show "filter (\<lambda>s. priority s = k) (execution_order steps) = filter (\<lambda>s. priority s = k) steps"
    by simp
next
  fix a b c :: clean_step_dict
  assume "priority a = 10 \<and> priority b = 50 \<and> priority c = 30"
  then show "execution_order [a, b, c] = [b, c, a]"
    by (simp add: execution_order_example)
next
  fix it ms self
  assume "BaseInterface_new it ms = Inr self"
  then show "clean_steps self = map (step_dict it) (tagged_methods (getmembers ms ismethod))"
    by (rule BaseInterface_new_order)
next
  fix ms
  show "sorted (map fst (getmembers ms ismethod))"
    by (rule sorted_getmembers)
next
  fix ms
  show "mset (getmembers ms ismethod) = mset (filter (\<lambda>(n, v). ismethod v) ms)"
    by (rule mset_getmembers)
next
  fix it ms self
  assume "BaseInterface_new it ms = Inr self \<and>
      (\<forall>(n, m) \<in> set ms. \<forall>f. m = Method f \<longrightarrow> fname f = n)"
  then show "sorted (map step (clean_steps self))"
    using BaseInterface_new_sorted by blast
qed

text \<open>
  Steps of priority 10, 50 and 30 run as 50, 30, 10. An interface that declares \<open>zap_b\<close>
  and then binds the function \<open>zap_z\<close> under the name \<open>a_alias\<close> lists \<open>zap_z\<close>
  first, after the attribute names; an interface declaring \<open>zap_b\<close> before \<open>zap_a\<close>
  lists them by name.
\<close>

theorem execution_order_descending_stable_witness:
  "execution_order
     [\<lparr>step = ''erase_disks'', priority = 10, interface = ''deploy''\<rparr>,
      \<lparr>step = ''update_firmware'', priority = 50, interface = ''management''\<rparr>,
      \<lparr>step = ''reset_bios'', priority = 30, interface = ''management''\<rparr>]
   = [\<lparr>step = ''update_firmware'', priority = 50, interface = ''management''\<rparr>,
      \<lparr>step = ''reset_bios'', priority = 30, interface = ''management''\<rparr>,
      \<lparr>step = ''erase_disks'', priority = 10, interface = ''deploy''\<rparr>] \<and>
   clean_steps
     \<lparr>interface_type = ''deploy'',
      clean_steps = [\<lparr>step = ''zap_z'', priority = 10, interface = ''deploy''\<rparr>,
                     \<lparr>step = ''zap_b'', priority = 10, interface = ''deploy''\<rparr>]\<rparr>
   = map (step_dict ''deploy'') (tagged_methods (getmembers
       [(''zap_b'', Method (clean_step 10 (def ''zap_b''))),
        (''a_alias'', Method (clean_step 10 (def ''zap_z'')))] ismethod)) \<and>
   sorted (map step (clean_steps
     \<lparr>interface_type = ''deploy'',
      clean_steps = [\<lparr>step = ''zap_a'', priority = 10, interface = ''deploy''\<rparr>,
                     \<lparr>step = ''zap_b'', priority = 10, interface = ''deploy''\<rparr>]\<rparr>))"
proof -
  let ?a = "\<lparr>step = ''erase_disks'', priority = 10, interface = ''deploy''\<rparr>"
  let ?b = "\<lparr>step = ''update_firmware'', priority = 50, interface = ''management''\<rparr>"
  let ?c = "\<lparr>step = ''reset_bios'', priority = 30, interface = ''management''\<rparr>"
  let ?ms = "[(''zap_b'', Method (clean_step 10 (def ''zap_b''))),
              (''zap_a'', Method (clean_step 10 (def ''zap_a'')))]"
  let ?self = "\<lparr>interface_type = ''deploy'',
      clean_steps = [\<lparr>step = ''zap_a'', priority = 10, interface = ''deploy''\<rparr>,
                     \<lparr>step = ''zap_b'', priority = 10, interface = ''deploy''\<rparr>]\<rparr>"
  let ?ms' = "[(''zap_b'', Method (clean_step 10 (def ''zap_b''))),
               (''a_alias'', Method (clean_step 10 (def ''zap_z'')))]"
  let ?self' = "\<lparr>interface_type = ''deploy'',
      clean_steps = [\<lparr>step = ''zap_z'', priority = 10, interface = ''deploy''\<rparr>,
                     \<lparr>step = ''zap_b'', priority = 10, interface = ''deploy''\<rparr>]\<rparr>"
  have p: "priority ?a = 10 \<and> priority ?b = 50 \<and> priority ?c = 30" by simp
  have n: "BaseInterface_new ''deploy'' ?ms = Inr ?self \<and>
      (\<forall>(n, m) \<in> set ?ms. \<forall>f. m = Method f \<longrightarrow> fname f = n)"
    by (simp add: BaseInterface_new_def getmembers_def clean_step_def def_def)
  have n': "BaseInterface_new ''deploy'' ?ms' = Inr ?self'"
    by (simp add: BaseInterface_new_def getmembers_def clean_step_def def_def)
  note t = execution_order_descending_stable [of "[]"]
  note t4 = t [THEN conjunct2, THEN conjunct2, THEN conjunct2, THEN conjunct1]
  note t5 = t [THEN conjunct2, THEN conjunct2, THEN conjunct2, THEN conjunct2, THEN conjunct1]
  note t6 = t [THEN conjunct2, THEN conjunct2, THEN conjunct2, THEN conjunct2, THEN conjunct2]
  from t4 p have 1: "execution_order [?a, ?b, ?c] = [?b, ?c, ?a]" by blast
  from t5 n' have 2: "clean_steps ?self'
      = map (step_dict ''deploy'') (tagged_methods (getmembers ?ms' ismethod))" by blast
  from t6 n have 3: "sorted (map step (clean_steps ?self))" by blast
  from 1 2 3 show ?thesis by (intro conjI)
qed

text \<open>
  C2 as stated fails: an interface that declares \<open>zap_b\<close> before \<open>zap_a\<close>, both of
  priority 10, has them discovered, and run, as \<open>zap_a\<close> then \<open>zap_b\<close>.
\<close>

theorem execution_order_declaration_counterexample:
  "BaseInterface_new ''deploy''
     [(''zap_b'', Method (clean_step 10 (def ''zap_b''))),
      (''zap_a'', Method (clean_step 10 (def ''zap_a'')))]
   = Inr \<lparr>interface_type = ''deploy'',
      clean_steps = [\<lparr>step = ''zap_a'', priority = 10, interface = ''deploy''\<rparr>,
                     \<lparr>step = ''zap_b'', priority = 10, interface = ''deploy''\<rparr>]\<rparr> \<and>
   map step (execution_order
      [\<lparr>step = ''zap_a'', priority = 10, interface = ''deploy''\<rparr>,
       \<lparr>step = ''zap_b'', priority = 10, interface = ''deploy''\<rparr>])
   = [''zap_a'', ''zap_b''] \<and>
   map step (execution_order
      [\<lparr>step = ''zap_a'', priority = 10, interface = ''deploy''\<rparr>,
       \<lparr>step = ''zap_b'', priority = 10, interface = ''deploy''\<rparr>])
   \<noteq> map fst
      [(''zap_b'', Method (clean_step 10 (def ''zap_b''))),
       (''zap_a'', Method (clean_step 10 (def ''zap_a'')))]"
  by (simp add: BaseInterface_new_def getmembers_def clean_step_def def_def execution_order_def)

section \<open>Properties of the vendor passthru wrapper\<close>

text \<open>
  C6, as the code has it: when the wrapped function returns, the wrapper returns the same
  value; when it raises an \<open>IronicException\<close>, the same exception propagates; when it
  raises any other exception that derives from \<open>Exception\<close>, the wrapper raises a
  \<open>VendorPassthruException\<close> in its place; an exception that does not derive from
  \<open>Exception\<close> propagates unchanged.
\<close>

theorem passthru_handler_outcomes:
  "(\<forall>v. func args = Return v \<longrightarrow> fst (handle_passthru meth n func args log) = Return v) \<and>
   (\<forall>e. func args = Raise e \<and> base e = IronicException \<longrightarrow>
      fst (handle_passthru meth n func args log) = Raise e) \<and>
   (\<forall>e. func args = Raise e \<and> base e = Exception \<longrightarrow>
      fst (handle_passthru meth n func args log) = Raise (VendorPassthruException e) \<and>
      base (VendorPassthruException e) = IronicException \<and>
      cls (VendorPassthruException e) = ''VendorPassthruException'') \<and>
   (\<forall>e. func args = Raise e \<and> base e = BaseException \<longrightarrow>
      fst (handle_passthru meth n func args log) = Raise e)"
  by (simp add: handle_passthru_def passthru_handler_def VendorPassthruException_def)

text \<open>A passthru function failing with a \<open>KeyError\<close>.\<close>

theorem passthru_handler_outcomes_witness:
  "fst (handle_passthru None ''heartbeat'' failing () [])
     = Raise \<lparr>base = IronicException, cls = ''VendorPassthruException'', message = ''bmc''\<rparr>"
proof -
  have f: "failing () = Raise \<lparr>base = Exception, cls = ''KeyError'', message = ''bmc''\<rparr> \<and>
     base \<lparr>base = Exception, cls = ''KeyError'', message = ''bmc''\<rparr> = Exception"
    by (simp add: failing_def)
  from passthru_handler_outcomes [of failing "()" None "''heartbeat''" "[]"]
  have "\<forall>e. failing () = Raise e \<and> base e = Exception \<longrightarrow>
      fst (handle_passthru None ''heartbeat'' failing () []) = Raise (VendorPassthruException e) \<and>
      base (VendorPassthruException e) = IronicException \<and>
      cls (VendorPassthruException e) = ''VendorPassthruException''"
    by (elim conjE)
  with f have "fst (handle_passthru None ''heartbeat'' failing () [])
     = Raise (VendorPassthruException \<lparr>base = Exception, cls = ''KeyError'', message = ''bmc''\<rparr>)"
    by blast
  then show ?thesis by (simp add: VendorPassthruException_def)
qed

text \<open>
  C6 as stated fails: a passthru function interrupted by \<open>KeyboardInterrupt\<close>, which is
  no \<open>IronicException\<close>, has the wrapper raise that same exception, not a
  \<open>VendorPassthruException\<close>.
\<close>

theorem passthru_handler_base_exception_counterexample:
  "handle_passthru None ''heartbeat'' interrupted () [] = (Raise KeyboardInterrupt, []) \<and>
   cls KeyboardInterrupt \<noteq> ''VendorPassthruException'' \<and>
   base KeyboardInterrupt \<noteq> IronicException"
  by (simp add: handle_passthru_def passthru_handler_def interrupted_def KeyboardInterrupt_def)

section \<open>Properties of the driver capability set\<close>

text \<open>
  C8: power and deploy are the core interfaces and no other is; a driver fails to load
  with \<open>DriverLoadError\<close> exactly when power or deploy is missing, so a driver with both
  loads whether or not console, rescue, management, inspect and vendor are None, as they
  are in \<open>BaseDriver\<close>.
\<close>

theorem core_interfaces_mandatory:
  "set core_interfaces = {''power'', ''deploy''} \<and>
   set standard_interfaces = {''console'', ''management'', ''inspect''} \<and>
   (load_driver driver = Inl DriverLoadError \<longleftrightarrow> power_interface driver = None \<or> deploy driver = None) \<and>
   (power_interface driver \<noteq> None \<and> deploy driver \<noteq> None \<longrightarrow> load_driver driver = Inr driver) \<and>
   load_driver (BaseDriver\<lparr>power_interface := Some p, deploy := Some d\<rparr>)
     = Inr \<lparr>power_interface = Some p, deploy = Some d, console = None, rescue = None,
            management = None, vendor = None, inspect = None\<rparr>"
proof (intro conjI)
  show "set core_interfaces = {''power'', ''deploy''}"
    by (simp add: core_interfaces_def)
  show "set standard_interfaces = {''console'', ''management'', ''inspect''}"
    by (simp add: standard_interfaces_def)
  show l: "load_driver driver = Inl DriverLoadError \<longleftrightarrow> power_interface driver = None \<or> deploy driver = None"
    by (simp add: load_driver_def core_interfaces_def getattr_def)
  show "power_interface driver \<noteq> None \<and> deploy driver \<noteq> None \<longrightarrow> load_driver driver = Inr driver"
    by (simp add: load_driver_def core_interfaces_def getattr_def)
  show "load_driver (BaseDriver\<lparr>power_interface := Some p, deploy := Some d\<rparr>)
     = Inr \<lparr>power_interface = Some p, deploy = Some d, console = None, rescue = None,
            management = None, vendor = None, inspect = None\<rparr>"
    by (simp add: load_driver_def core_interfaces_def getattr_def BaseDriver_def)
qed

text \<open>
  A driver with a power and a deploy interface and nothing else loads; the same driver
  without its deploy interface does not.
\<close>

theorem core_interfaces_mandatory_witness:
  "load_driver \<lparr>power_interface = Some ''DracPower'', deploy = Some ''PXEDeploy'', console = None,
       rescue = None, management = None, vendor = None, inspect = None\<rparr>
     = Inr \<lparr>power_interface = Some ''DracPower'', deploy = Some ''PXEDeploy'', console = None,
       rescue = None, management = None, vendor = None, inspect = None\<rparr> \<and>
   load_driver \<lparr>power_interface = Some ''DracPower'', deploy = None, console = None,
       rescue = None, management = None, vendor = None, inspect = None\<rparr>
     = Inl DriverLoadError"
proof -
  let ?ok = "\<lparr>power_interface = Some ''DracPower'', deploy = Some ''PXEDeploy'', console = None,
       rescue = None, management = None, vendor = None, inspect = None\<rparr>"
  let ?bad = "\<lparr>power_interface = Some ''DracPower'', deploy = None, console = None,
       rescue = None, management = None, vendor = None, inspect = None\<rparr>"
  have a: "power_interface ?ok \<noteq> None \<and> deploy ?ok \<noteq> None" by simp
  have b: "power_interface ?bad = None \<or> deploy ?bad = None" by simp
  note ok = core_interfaces_mandatory [of ?ok, THEN conjunct2, THEN conjunct2, THEN conjunct2,
      THEN conjunct1]
  from ok a have 1: "load_driver ?ok = Inr ?ok" by (rule mp)
  note bad = core_interfaces_mandatory [of ?bad, THEN conjunct2, THEN conjunct2, THEN conjunct1]
  from bad b have 2: "load_driver ?bad = Inl DriverLoadError" by (rule iffD2)
  from 1 2 show ?thesis by (rule conjI)
qed

section \<open>Properties of the flexible dictionary field\<close>

lemma py_dict_is_dict: "py_dict v = Inr d \<Longrightarrow> is_dict d"
  by (cases v) (auto split: sum.splits)

lemma FlexibleDict_coerce_is_dict: "FlexibleDict_coerce le v = Inr d \<Longrightarrow> is_dict d"
  by (auto simp: FlexibleDict_coerce_def split: pyval.splits sum.splits dest: py_dict_is_dict)

text \<open>
  C10: through a nullable \<open>FlexibleDictField\<close> a null value is read as the empty
  dictionary, not as None; a string is parsed as a Python literal and the result handed to
  \<open>dict\<close>; and whatever value the field yields is a dictionary.
\<close>

theorem FlexibleDictField_yields_dict:
  assumes "nullable self"
  shows "FlexibleDictField_call literal_eval self PyNone = Inr (PyDict []) \<and>
    FlexibleDictField_call literal_eval self (PyStr s)
      = (case literal_eval s of Inl e \<Rightarrow> Inl e | Inr v \<Rightarrow> py_dict v) \<and>
    (\<forall>value d. FlexibleDictField_call literal_eval self value = Inr d \<longrightarrow> is_dict d)"
proof (intro conjI allI impI)
  show "FlexibleDictField_call literal_eval self PyNone = Inr (PyDict [])"
    using assms by (simp add: FlexibleDictField_call_def Field_coerce_def FlexibleDictField_null_def)
  show "FlexibleDictField_call literal_eval self (PyStr s)
      = (case literal_eval s of Inl e \<Rightarrow> Inl e | Inr v \<Rightarrow> py_dict v)"
    by (simp add: FlexibleDictField_call_def Field_coerce_def FlexibleDict_coerce_def)
next
  fix "value" d
  assume r: "FlexibleDictField_call literal_eval self value = Inr d"
  show "is_dict d"
  proof (cases "value = PyNone")
    case True
    with r assms show ?thesis
      by (auto simp: FlexibleDictField_call_def Field_coerce_def FlexibleDictField_null_def)
  next
    case False
    with r have "FlexibleDict_coerce literal_eval value = Inr d"
      by (simp add: FlexibleDictField_call_def Field_coerce_def)
    then show ?thesis by (rule FlexibleDict_coerce_is_dict)
  qed
qed

text \<open>
  A nullable field without default: None is read as \<open>{}\<close>, and the string
  \<open>[[1, 2]]\<close> as the dictionary \<open>{1: 2}\<close>.
\<close>

theorem FlexibleDictField_yields_dict_witness:
  "FlexibleDictField_call literal_eval_example \<lparr>nullable = True, default = None\<rparr> PyNone
     = Inr (PyDict []) \<and>
   FlexibleDictField_call literal_eval_example \<lparr>nullable = True, default = None\<rparr> (PyStr ''[[1, 2]]'')
     = Inr (PyDict [(PyInt 1, PyInt 2)]) \<and>
   is_dict (PyDict [(PyInt 1, PyInt 2)])"
proof -
  let ?f = "\<lparr>nullable = True, default = None\<rparr>"
  have n: "nullable ?f" by simp
  note t = FlexibleDictField_yields_dict [OF n, of literal_eval_example "''[[1, 2]]''"]
  from t have 1: "FlexibleDictField_call literal_eval_example ?f PyNone = Inr (PyDict [])"
    by (rule conjunct1)
  from t have "FlexibleDictField_call literal_eval_example ?f (PyStr ''[[1, 2]]'')
      = (case literal_eval_example ''[[1, 2]]'' of Inl e \<Rightarrow> Inl e | Inr v \<Rightarrow> py_dict v)"
    by (elim conjE)
  then have 2: "FlexibleDictField_call literal_eval_example ?f (PyStr ''[[1, 2]]'')
      = Inr (PyDict [(PyInt 1, PyInt 2)])"
    by (simp add: literal_eval_example_def)
  from t have "\<forall>value d. FlexibleDictField_call literal_eval_example ?f value = Inr d \<longrightarrow> is_dict d"
    by (elim conjE)
  with 2 have 3: "is_dict (PyDict [(PyInt 1, PyInt 2)])" by blast
  from 1 2 3 show ?thesis by (intro conjI)
qed

section \<open>Properties of the iLO driver info parser\<close>

lemma map_of_setitem: "map_of (setitem d k v) = (map_of d)(k \<mapsto> v)"
  by (induction d k v rule: setitem.induct) (auto simp: fun_upd_twist)

lemma py_int_cases:
  "(\<exists>n. py_int v = Inr n) \<or> py_int v = Inl ValueError \<or> py_int v = Inl TypeError"
  by (cases v) (auto split: option.splits)

lemma required_loop_missing:
  "required_loop info ps (d, m) = (d', m') \<Longrightarrow> m' = m @ filter (\<lambda>p. map_of info p = None) ps"
proof (induction ps arbitrary: d m)
  case Nil
  then show ?case by simp
next
  case (Cons a ps)
  show ?case
  proof (cases "map_of info a")
    case None
    with Cons.prems have "required_loop info ps (d, m @ [a]) = (d', m')" by simp
    from Cons.IH [OF this] None show ?thesis by simp
  next
    case (Some v)
    with Cons.prems have "required_loop info ps (setitem d a v, m) = (d', m')" by simp
    from Cons.IH [OF this] Some show ?thesis by simp
  qed
qed

lemma required_loop_d_info:
  "required_loop info ps (d, m) = (d', m') \<Longrightarrow>
   map_of d' q = (if q \<in> set ps \<and> map_of info q \<noteq> None then map_of info q else map_of d q)"
  by (induction ps arbitrary: d m) (auto simp: map_of_setitem split: option.splits)

lemma optional_loop_result:
  "\<forall>p \<in> set ps. py_int (dict_get info p (conf_get conf p)) \<noteq> Inl TypeError \<Longrightarrow>
   \<exists>d'. optional_loop conf info ps (d, ni) =
          Inr (d', ni @ filter (\<lambda>p. py_int (dict_get info p (conf_get conf p)) = Inl ValueError) ps) \<and>
        (\<forall>q. q \<notin> set ps \<longrightarrow> map_of d' q = map_of d q)"
proof (induction ps arbitrary: d ni)
  case Nil
  then show ?case by simp
next
  case (Cons p ps)
  let ?v = "dict_get info p (conf_get conf p)"
  from Cons.prems have nt: "py_int ?v \<noteq> Inl TypeError"
    and rest: "\<forall>p \<in> set ps. py_int (dict_get info p (conf_get conf p)) \<noteq> Inl TypeError"
    by simp_all
  from py_int_cases [of ?v] nt consider n where "py_int ?v = Inr n" | "py_int ?v = Inl ValueError"
    by blast
  then show ?case
  proof cases
    case 1
    from Cons.IH [OF rest, of "setitem d p (PyInt n)" ni] 1 show ?thesis
      by (auto simp: map_of_setitem)
  next
    case 2
    from Cons.IH [OF rest, of d "ni @ [p]"] 2 show ?thesis
      by auto
  qed
qed

lemma console_loop_result:
  "\<forall>p \<in> set ps. truthy (dict_get info p PyNone) \<longrightarrow> py_int (dict_get info p PyNone) \<noteq> Inl TypeError \<Longrightarrow>
   \<exists>d'. console_loop info ps (d, ni) =
          Inr (d', ni @ filter (\<lambda>p. truthy (dict_get info p PyNone) \<and>
                                  py_int (dict_get info p PyNone) = Inl ValueError) ps) \<and>
        (\<forall>q. q \<notin> set ps \<longrightarrow> map_of d' q = map_of d q)"
proof (induction ps arbitrary: d ni)
  case Nil
  then show ?case by simp
next
  case (Cons p ps)
  let ?v = "dict_get info p PyNone"
  from Cons.prems have nt: "truthy ?v \<longrightarrow> py_int ?v \<noteq> Inl TypeError"
    and rest: "\<forall>p \<in> set ps. truthy (dict_get info p PyNone) \<longrightarrow>
        py_int (dict_get info p PyNone) \<noteq> Inl TypeError"
    by simp_all
  from py_int_cases [of ?v] nt
  consider "\<not> truthy ?v" | n where "truthy ?v" "py_int ?v = Inr n"
    | "truthy ?v" "py_int ?v = Inl ValueError"
    by blast
  then show ?case
  proof cases
    case 1
    from Cons.IH [OF rest, of d ni] 1 show ?thesis
      by auto
  next
    case 2
    from Cons.IH [OF rest, of "setitem d p (PyInt n)" ni] 2 show ?thesis
      by (auto simp: map_of_setitem)
  next
    case 3
    from Cons.IH [OF rest, of d "ni @ [p]"] 3 show ?thesis
      by auto
  qed
qed


lemma parse_driver_info_missing:
  assumes "\<exists>p \<in> set REQUIRED_PROPERTIES. map_of info p = None"
  shows "parse_driver_info conf info =
     Inl (MissingParameterValue (filter (\<lambda>p. map_of info p = None) REQUIRED_PROPERTIES))"
proof -
  obtain d m where r: "required_loop info REQUIRED_PROPERTIES ([], []) = (d, m)"
    by (cases "required_loop info REQUIRED_PROPERTIES ([], [])")
  from required_loop_missing [OF r]
  have m: "m = filter (\<lambda>p. map_of info p = None) REQUIRED_PROPERTIES" by simp
  from assms have "m \<noteq> []" unfolding m by (simp add: filter_empty_conv)
  with m show ?thesis by (simp add: parse_driver_info_def r)
qed

lemma parse_driver_info_present:
  assumes req: "\<forall>p \<in> set REQUIRED_PROPERTIES. map_of info p \<noteq> None"
    and opt: "\<forall>p \<in> set OPTIONAL_PROPERTIES.
        py_int (dict_get info p (conf_get conf p)) \<noteq> Inl TypeError"
    and con: "\<forall>p \<in> set CONSOLE_PROPERTIES. truthy (dict_get info p PyNone) \<longrightarrow>
        py_int (dict_get info p PyNone) \<noteq> Inl TypeError"
  shows "\<exists>d_info. (\<forall>p \<in> set REQUIRED_PROPERTIES. map_of d_info p = map_of info p) \<and>
     parse_driver_info conf info =
       (if filter (\<lambda>p. py_int (dict_get info p (conf_get conf p)) = Inl ValueError) OPTIONAL_PROPERTIES
           @ filter (\<lambda>p. truthy (dict_get info p PyNone) \<and>
                          py_int (dict_get info p PyNone) = Inl ValueError) CONSOLE_PROPERTIES \<noteq> []
        then Inl (InvalidParameterValue
          (filter (\<lambda>p. py_int (dict_get info p (conf_get conf p)) = Inl ValueError) OPTIONAL_PROPERTIES
           @ filter (\<lambda>p. truthy (dict_get info p PyNone) \<and>
                          py_int (dict_get info p PyNone) = Inl ValueError) CONSOLE_PROPERTIES))
        else Inr d_info)"
proof -
  let ?no = "filter (\<lambda>p. py_int (dict_get info p (conf_get conf p)) = Inl ValueError) OPTIONAL_PROPERTIES"
  let ?nc = "filter (\<lambda>p. truthy (dict_get info p PyNone) \<and>
                          py_int (dict_get info p PyNone) = Inl ValueError) CONSOLE_PROPERTIES"
  obtain d m where r: "required_loop info REQUIRED_PROPERTIES ([], []) = (d, m)"
    by (cases "required_loop info REQUIRED_PROPERTIES ([], [])")
  from required_loop_missing [OF r] req
  have m: "m = []" by (simp add: filter_empty_conv)
  have d: "\<forall>p \<in> set REQUIRED_PROPERTIES. map_of d p = map_of info p"
    using required_loop_d_info [OF r] req by simp
  from optional_loop_result [OF opt, of d "[]"]
  obtain d1 where o: "optional_loop conf info OPTIONAL_PROPERTIES (d, []) = Inr (d1, ?no)"
    and d1: "\<forall>q. q \<notin> set OPTIONAL_PROPERTIES \<longrightarrow> map_of d1 q = map_of d q"
    by auto
  from console_loop_result [OF con, of d1 ?no]
  obtain d2 where c: "console_loop info CONSOLE_PROPERTIES (d1, ?no) = Inr (d2, ?no @ ?nc)"
    and d2: "\<forall>q. q \<notin> set CONSOLE_PROPERTIES \<longrightarrow> map_of d2 q = map_of d1 q"
    by auto
  have disj: "\<forall>p \<in> set REQUIRED_PROPERTIES. p \<notin> set OPTIONAL_PROPERTIES \<and> p \<notin> set CONSOLE_PROPERTIES"
    by (simp add: REQUIRED_PROPERTIES_def OPTIONAL_PROPERTIES_def CONSOLE_PROPERTIES_def)
  from d d1 d2 disj have k: "\<forall>p \<in> set REQUIRED_PROPERTIES. map_of d2 p = map_of info p"
    by simp
  have "parse_driver_info conf info =
      (if ?no @ ?nc \<noteq> [] then Inl (InvalidParameterValue (?no @ ?nc)) else Inr d2)"
    by (simp only: parse_driver_info_def r m o c prod.case sum.case simp_thms if_False)
  with k show ?thesis by blast
qed

lemma optional_loop_error:
  "optional_loop conf info ps acc = Inl e \<Longrightarrow> e = TypeError"
proof (induction conf info ps acc rule: optional_loop.induct)
  case (1 conf info d_info not_integers)
  then show ?case by simp
next
  case (2 conf info param params d_info not_integers)
  from py_int_cases [of "dict_get info param (conf_get conf param)"] 2 show ?case
    by (auto split: sum.splits if_splits)
qed

lemma console_loop_error:
  "console_loop info ps acc = Inl e \<Longrightarrow> e = TypeError"
proof (induction info ps acc rule: console_loop.induct)
  case (1 info d_info not_integers)
  then show ?case by simp
next
  case (2 info param params d_info not_integers)
  from py_int_cases [of "dict_get info param PyNone"] 2 show ?case
    by (auto split: sum.splits if_splits)
qed

lemma parse_driver_info_not_missing:
  assumes "\<forall>p \<in> set REQUIRED_PROPERTIES. map_of info p \<noteq> None"
  shows "parse_driver_info conf info \<noteq> Inl (MissingParameterValue ps)"
proof -
  obtain d m where r: "required_loop info REQUIRED_PROPERTIES ([], []) = (d, m)"
    by (cases "required_loop info REQUIRED_PROPERTIES ([], [])")
  from required_loop_missing [OF r] assms
  have m: "m = []" by (simp add: filter_empty_conv)
  show ?thesis
    by (auto simp: parse_driver_info_def r m split: sum.splits prod.splits
             dest: optional_loop_error console_loop_error)
qed

text \<open>
  C4, as the code has it. The parser raises \<open>MissingParameterValue\<close> exactly when a
  required parameter is absent from \<open>driver_info\<close>, naming the absent ones, whatever the
  other values are. When all required parameters are present, and the value of every
  optional parameter (that of \<open>driver_info\<close>, or else of the configuration) and a
  \<open>console_port\<close> that is true as a condition are of a type \<open>int\<close> takes (an integer, a
  boolean or a string), it raises \<open>InvalidParameterValue\<close> exactly when \<open>int\<close> raises
  \<open>ValueError\<close> for one of these optional values or for a \<open>console_port\<close> that is true as
  a condition; otherwise it returns a dictionary that holds all the required values. A
  \<open>console_port\<close> that is false as a condition (None, the empty string, 0) is passed
  over.
\<close>

theorem parse_driver_info_errors:
  "((\<exists>ps. parse_driver_info conf info = Inl (MissingParameterValue ps)) \<longleftrightarrow>
      (\<exists>p \<in> set REQUIRED_PROPERTIES. map_of info p = None)) \<and>
   ((\<exists>p \<in> set REQUIRED_PROPERTIES. map_of info p = None) \<longrightarrow>
      parse_driver_info conf info =
        Inl (MissingParameterValue (filter (\<lambda>p. map_of info p = None) REQUIRED_PROPERTIES))) \<and>
   ((\<forall>p \<in> set REQUIRED_PROPERTIES. map_of info p \<noteq> None) \<and>
    (\<forall>p \<in> set OPTIONAL_PROPERTIES. py_int (dict_get info p (conf_get conf p)) \<noteq> Inl TypeError) \<and>
    (\<forall>p \<in> set CONSOLE_PROPERTIES. truthy (dict_get info p PyNone) \<longrightarrow>
        py_int (dict_get info p PyNone) \<noteq> Inl TypeError) \<longrightarrow>
      ((\<exists>ps. parse_driver_info conf info = Inl (InvalidParameterValue ps)) \<longleftrightarrow>
         (\<exists>p \<in> set OPTIONAL_PROPERTIES. py_int (dict_get info p (conf_get conf p)) = Inl ValueError) \<or>
         (\<exists>p \<in> set CONSOLE_PROPERTIES. truthy (dict_get info p PyNone) \<and>
              py_int (dict_get info p PyNone) = Inl ValueError)) \<and>
      ((\<exists>d_info. parse_driver_info conf info = Inr d_info \<and>
            (\<forall>p \<in> set REQUIRED_PROPERTIES. map_of d_info p = map_of info p)) \<longleftrightarrow>
         \<not> ((\<exists>p \<in> set OPTIONAL_PROPERTIES. py_int (dict_get info p (conf_get conf p)) = Inl ValueError) \<or>
            (\<exists>p \<in> set CONSOLE_PROPERTIES. truthy (dict_get info p PyNone) \<and>
              py_int (dict_get info p PyNone) = Inl ValueError))))"
proof (intro conjI impI)
  show "(\<exists>ps. parse_driver_info conf info = Inl (MissingParameterValue ps)) \<longleftrightarrow>
      (\<exists>p \<in> set REQUIRED_PROPERTIES. map_of info p = None)"
  proof
    assume "\<exists>ps. parse_driver_info conf info = Inl (MissingParameterValue ps)"
    then obtain ps where ps: "parse_driver_info conf info = Inl (MissingParameterValue ps)" ..
    show "\<exists>p \<in> set REQUIRED_PROPERTIES. map_of info p = None"
    proof (rule ccontr)
      assume "\<not> (\<exists>p \<in> set REQUIRED_PROPERTIES. map_of info p = None)"
      then have "\<forall>p \<in> set REQUIRED_PROPERTIES. map_of info p \<noteq> None" by simp
      from parse_driver_info_not_missing [OF this] ps show False by blast
    qed
  next
    assume "\<exists>p \<in> set REQUIRED_PROPERTIES. map_of info p = None"
    from parse_driver_info_missing [OF this] show
      "\<exists>ps. parse_driver_info conf info = Inl (MissingParameterValue ps)" by blast
  qed
next
  assume "\<exists>p \<in> set REQUIRED_PROPERTIES. map_of info p = None"
  then show "parse_driver_info conf info =
        Inl (MissingParameterValue (filter (\<lambda>p. map_of info p = None) REQUIRED_PROPERTIES))"
    by (rule parse_driver_info_missing)
next
  let ?no = "filter (\<lambda>p. py_int (dict_get info p (conf_get conf p)) = Inl ValueError) OPTIONAL_PROPERTIES"
  let ?nc = "filter (\<lambda>p. truthy (dict_get info p PyNone) \<and>
                          py_int (dict_get info p PyNone) = Inl ValueError) CONSOLE_PROPERTIES"
  let ?bad = "(\<exists>p \<in> set OPTIONAL_PROPERTIES. py_int (dict_get info p (conf_get conf p)) = Inl ValueError) \<or>
         (\<exists>p \<in> set CONSOLE_PROPERTIES. truthy (dict_get info p PyNone) \<and>
              py_int (dict_get info p PyNone) = Inl ValueError)"
  assume h: "(\<forall>p \<in> set REQUIRED_PROPERTIES. map_of info p \<noteq> None) \<and>
    (\<forall>p \<in> set OPTIONAL_PROPERTIES. py_int (dict_get info p (conf_get conf p)) \<noteq> Inl TypeError) \<and>
    (\<forall>p \<in> set CONSOLE_PROPERTIES. truthy (dict_get info p PyNone) \<longrightarrow>
        py_int (dict_get info p PyNone) \<noteq> Inl TypeError)"
  then have h1: "\<forall>p \<in> set REQUIRED_PROPERTIES. map_of info p \<noteq> None"
    and h2: "\<forall>p \<in> set OPTIONAL_PROPERTIES. py_int (dict_get info p (conf_get conf p)) \<noteq> Inl TypeError"
    and h3: "\<forall>p \<in> set CONSOLE_PROPERTIES. truthy (dict_get info p PyNone) \<longrightarrow>
        py_int (dict_get info p PyNone) \<noteq> Inl TypeError"
    by blast+
  from parse_driver_info_present [OF h1 h2 h3]
  obtain d_info where d: "\<forall>p \<in> set REQUIRED_PROPERTIES. map_of d_info p = map_of info p"
    and p: "parse_driver_info conf info =
       (if ?no @ ?nc \<noteq> [] then Inl (InvalidParameterValue (?no @ ?nc)) else Inr d_info)"
    by blast
  have b: "?no @ ?nc \<noteq> [] \<longleftrightarrow> ?bad"
    by (simp only: append_is_Nil_conv filter_empty_conv de_Morgan_conj not_not bex_simps
          simp_thms) blast
  show "(\<exists>ps. parse_driver_info conf info = Inl (InvalidParameterValue ps)) \<longleftrightarrow> ?bad"
  proof (cases "?no @ ?nc \<noteq> []")
    case True
    with p have "parse_driver_info conf info = Inl (InvalidParameterValue (?no @ ?nc))"
      by simp
    then have "\<exists>ps. parse_driver_info conf info = Inl (InvalidParameterValue ps)" by blast
    with True b show ?thesis by blast
  next
    case False
    with p have "parse_driver_info conf info = Inr d_info" by simp
    then have "\<not> (\<exists>ps. parse_driver_info conf info = Inl (InvalidParameterValue ps))" by simp
    with False b show ?thesis by blast
  qed
  show "(\<exists>d_info. parse_driver_info conf info = Inr d_info \<and>
            (\<forall>p \<in> set REQUIRED_PROPERTIES. map_of d_info p = map_of info p)) \<longleftrightarrow> \<not> ?bad"
  proof (cases "?no @ ?nc \<noteq> []")
    case True
    with p have "parse_driver_info conf info = Inl (InvalidParameterValue (?no @ ?nc))"
      by simp
    then have "\<not> (\<exists>d_info. parse_driver_info conf info = Inr d_info \<and>
            (\<forall>p \<in> set REQUIRED_PROPERTIES. map_of d_info p = map_of info p))" by simp
    with True b show ?thesis by blast
  next
    case False
    with p have "parse_driver_info conf info = Inr d_info" by simp
    with d have "\<exists>d_info. parse_driver_info conf info = Inr d_info \<and>
            (\<forall>p \<in> set REQUIRED_PROPERTIES. map_of d_info p = map_of info p)" by blast
    with False b show ?thesis by blast
  qed
qed

text \<open>
  With the default configuration: a node that gives only the address misses the user name
  and the password; a \<open>client_port\<close> of \<open>https\<close> is invalid; a node with all three
  required values, \<open>client_port\<close> 8443 and \<open>console_port\<close> 9000 is parsed.
\<close>

theorem parse_driver_info_errors_witness:
  "parse_driver_info \<lparr>client_timeout = 60, client_port = 443\<rparr>
     [(''ilo_address'', PyStr ''10.0.0.5'')]
     = Inl (MissingParameterValue [''ilo_username'', ''ilo_password'']) \<and>
   (\<exists>ps. parse_driver_info \<lparr>client_timeout = 60, client_port = 443\<rparr>
      [(''ilo_address'', PyStr ''10.0.0.5''), (''ilo_username'', PyStr ''admin''),
       (''ilo_password'', PyStr ''secret''), (''client_port'', PyStr ''https'')]
     = Inl (InvalidParameterValue ps)) \<and>
   (\<exists>d_info. parse_driver_info \<lparr>client_timeout = 60, client_port = 443\<rparr>
      [(''ilo_address'', PyStr ''10.0.0.5''), (''ilo_username'', PyStr ''admin''),
       (''ilo_password'', PyStr ''secret''), (''client_port'', PyStr ''8443''),
       (''console_port'', PyInt 9000)] = Inr d_info \<and>
      map_of d_info ''ilo_address'' = Some (PyStr ''10.0.0.5'') \<and>
      map_of d_info ''ilo_username'' = Some (PyStr ''admin'') \<and>
      map_of d_info ''ilo_password'' = Some (PyStr ''secret''))"
proof -
  let ?conf = "\<lparr>client_timeout = 60, client_port = 443\<rparr>"
  let ?i1 = "[(''ilo_address'', PyStr ''10.0.0.5'')]"
  let ?i2 = "[(''ilo_address'', PyStr ''10.0.0.5''), (''ilo_username'', PyStr ''admin''),
       (''ilo_password'', PyStr ''secret''), (''client_port'', PyStr ''https'')]"
  let ?i3 = "[(''ilo_address'', PyStr ''10.0.0.5''), (''ilo_username'', PyStr ''admin''),
       (''ilo_password'', PyStr ''secret''), (''client_port'', PyStr ''8443''),
       (''console_port'', PyInt 9000)]"
  note ev = REQUIRED_PROPERTIES_def OPTIONAL_PROPERTIES_def CONSOLE_PROPERTIES_def
    dict_get_def conf_get_def int_of_string_def strip_def is_space_def is_digit_def
    digits_value_def digit_value_def
  have m1: "\<exists>p \<in> set REQUIRED_PROPERTIES. map_of ?i1 p = None"
    by (simp add: ev)
  from parse_driver_info_errors [of ?conf ?i1, THEN conjunct2, THEN conjunct1] m1
  have "parse_driver_info ?conf ?i1 =
      Inl (MissingParameterValue (filter (\<lambda>p. map_of ?i1 p = None) REQUIRED_PROPERTIES))"
    by (rule mp)
  then have 1: "parse_driver_info ?conf ?i1
      = Inl (MissingParameterValue [''ilo_username'', ''ilo_password''])"
    by (simp add: ev)
  have h2: "(\<forall>p \<in> set REQUIRED_PROPERTIES. map_of ?i2 p \<noteq> None) \<and>
    (\<forall>p \<in> set OPTIONAL_PROPERTIES. py_int (dict_get ?i2 p (conf_get ?conf p)) \<noteq> Inl TypeError) \<and>
    (\<forall>p \<in> set CONSOLE_PROPERTIES. truthy (dict_get ?i2 p PyNone) \<longrightarrow>
        py_int (dict_get ?i2 p PyNone) \<noteq> Inl TypeError)"
    by (simp add: ev)
  have b2: "(\<exists>p \<in> set OPTIONAL_PROPERTIES. py_int (dict_get ?i2 p (conf_get ?conf p)) = Inl ValueError) \<or>
         (\<exists>p \<in> set CONSOLE_PROPERTIES. truthy (dict_get ?i2 p PyNone) \<and>
              py_int (dict_get ?i2 p PyNone) = Inl ValueError)"
    by (simp add: ev)
  note t2 = parse_driver_info_errors [of ?conf ?i2, THEN conjunct2, THEN conjunct2, THEN mp, OF h2]
  from t2 [THEN conjunct1] b2
  have 2: "\<exists>ps. parse_driver_info ?conf ?i2 = Inl (InvalidParameterValue ps)"
    by (rule iffD2)
  have h3: "(\<forall>p \<in> set REQUIRED_PROPERTIES. map_of ?i3 p \<noteq> None) \<and>
    (\<forall>p \<in> set OPTIONAL_PROPERTIES. py_int (dict_get ?i3 p (conf_get ?conf p)) \<noteq> Inl TypeError) \<and>
    (\<forall>p \<in> set CONSOLE_PROPERTIES. truthy (dict_get ?i3 p PyNone) \<longrightarrow>
        py_int (dict_get ?i3 p PyNone) \<noteq> Inl TypeError)"
    by (simp add: ev)
  have b3: "\<not> ((\<exists>p \<in> set OPTIONAL_PROPERTIES. py_int (dict_get ?i3 p (conf_get ?conf p)) = Inl ValueError) \<or>
         (\<exists>p \<in> set CONSOLE_PROPERTIES. truthy (dict_get ?i3 p PyNone) \<and>
              py_int (dict_get ?i3 p PyNone) = Inl ValueError))"
    by (simp add: ev)
  note t3 = parse_driver_info_errors [of ?conf ?i3, THEN conjunct2, THEN conjunct2, THEN mp, OF h3]
  from t3 [THEN conjunct2] b3
  have "\<exists>d_info. parse_driver_info ?conf ?i3 = Inr d_info \<and>
            (\<forall>p \<in> set REQUIRED_PROPERTIES. map_of d_info p = map_of ?i3 p)"
    by (rule iffD2)
  then obtain d_info where r: "parse_driver_info ?conf ?i3 = Inr d_info"
    and k: "\<forall>p \<in> set REQUIRED_PROPERTIES. map_of d_info p = map_of ?i3 p"
    by blast
  from k have "map_of d_info ''ilo_address'' = Some (PyStr ''10.0.0.5'') \<and>
      map_of d_info ''ilo_username'' = Some (PyStr ''admin'') \<and>
      map_of d_info ''ilo_password'' = Some (PyStr ''secret'')"
    by (simp add: REQUIRED_PROPERTIES_def)
  with r have 3: "\<exists>d_info. parse_driver_info ?conf ?i3 = Inr d_info \<and>
      map_of d_info ''ilo_address'' = Some (PyStr ''10.0.0.5'') \<and>
      map_of d_info ''ilo_username'' = Some (PyStr ''admin'') \<and>
      map_of d_info ''ilo_password'' = Some (PyStr ''secret'')"
    by blast
  from 1 2 3 show ?thesis by (intro conjI)
qed

text \<open>
  C4 as stated fails: a node that supplies the empty string as \<open>console_port\<close>, which
  \<open>int\<close> does not convert, is parsed without error, the \<open>console_port\<close> left out of the
  result.
\<close>

theorem parse_driver_info_console_port_counterexample:
  "map_of [(''ilo_address'', PyStr ''10.0.0.5''), (''ilo_username'', PyStr ''admin''),
       (''ilo_password'', PyStr ''secret''), (''console_port'', PyStr '''')] ''console_port''
     = Some (PyStr '''') \<and>
   py_int (PyStr '''') = Inl ValueError \<and>
   parse_driver_info \<lparr>client_timeout = 60, client_port = 443\<rparr>
      [(''ilo_address'', PyStr ''10.0.0.5''), (''ilo_username'', PyStr ''admin''),
       (''ilo_password'', PyStr ''secret''), (''console_port'', PyStr '''')]
     = Inr [(''ilo_address'', PyStr ''10.0.0.5''), (''ilo_username'', PyStr ''admin''),
            (''ilo_password'', PyStr ''secret''), (''client_port'', PyInt 443),
            (''client_timeout'', PyInt 60)]"
  by (simp add: parse_driver_info_def REQUIRED_PROPERTIES_def OPTIONAL_PROPERTIES_def
      CONSOLE_PROPERTIES_def dict_get_def conf_get_def int_of_string_def strip_def)

text \<open>
  A value of another type is not reported as invalid: \<open>int(None)\<close> raises \<open>TypeError\<close>,
  which the loops do not catch.
\<close>

lemma parse_driver_info_type_error:
  "parse_driver_info \<lparr>client_timeout = 60, client_port = 443\<rparr>
      [(''ilo_address'', PyStr ''10.0.0.5''), (''ilo_username'', PyStr ''admin''),
       (''ilo_password'', PyStr ''secret''), (''client_port'', PyNone)]
     = Inl TypeError"
  by (simp add: parse_driver_info_def REQUIRED_PROPERTIES_def OPTIONAL_PROPERTIES_def
      CONSOLE_PROPERTIES_def dict_get_def conf_get_def)

section \<open>Properties of the task lease manager\<close>

lemma exclusive_alone_filter:
  assumes "exclusive_alone leases"
  shows "exclusive_alone (filter P leases)"
proof (cases "list_ex exclusive (filter P leases)")
  case False
  then show ?thesis by (simp add: exclusive_alone_def)
next
  case True
  then have "list_ex exclusive leases" by (auto simp: list_ex_iff)
  with assms have "length leases = 1" by (simp add: exclusive_alone_def)
  then obtain l where l: "leases = [l]" by (cases leases) auto
  with True show ?thesis by (auto simp: exclusive_alone_def split: if_splits)
qed

lemma exclusive_alone_acquire:
  assumes "exclusive_alone leases" and "\<not> conflicting x leases"
  shows "exclusive_alone (leases @ [\<lparr>holder = h, exclusive = x\<rparr>])"
  using assms by (cases x) (auto simp: exclusive_alone_def conflicting_def list_ex_iff)

lemma step_exclusive_alone:
  assumes "\<forall>n. exclusive_alone (leases_of s n)"
  shows "exclusive_alone (leases_of (perform s c) n)"
proof (cases c)
  case (Acquire m x h)
  show ?thesis
  proof (cases "acquire s m x h")
    case (Inl e)
    with Acquire assms show ?thesis by simp
  next
    case (Inr s')
    then obtain leases where ls: "s m = Some leases" and nc: "\<not> conflicting x leases"
      and s': "s' = s(m \<mapsto> leases @ [\<lparr>holder = h, exclusive = x\<rparr>])"
      by (auto simp: acquire_def split: option.splits if_splits)
    from assms [rule_format, of m] ls have "exclusive_alone leases" by (simp add: leases_of_def)
    from exclusive_alone_acquire [OF this nc, of h]
    have "exclusive_alone (leases_of s' m)" by (simp add: s' leases_of_def)
    moreover have "n \<noteq> m \<Longrightarrow> leases_of s' n = leases_of s n" by (simp add: s' leases_of_def)
    ultimately have "exclusive_alone (leases_of s' n)" using assms by (cases "n = m") auto
    with Acquire Inr show ?thesis by simp
  qed
next
  case (Release m h)
  show ?thesis
  proof (cases "s m")
    case None
    with Release assms show ?thesis by (simp add: release_def)
  next
    case (Some leases)
    with assms [rule_format, of m] have "exclusive_alone leases" by (simp add: leases_of_def)
    then have "exclusive_alone (filter (\<lambda>l. holder l \<noteq> h) leases)" by (rule exclusive_alone_filter)
    with Some have "exclusive_alone (leases_of (release s m h) m)"
      by (simp add: release_def leases_of_def)
    moreover have "n \<noteq> m \<Longrightarrow> leases_of (release s m h) n = leases_of s n"
      using Some by (simp add: release_def leases_of_def)
    ultimately have "exclusive_alone (leases_of (release s m h) n)" using assms by (cases "n = m") auto
    with Release show ?thesis by simp
  qed
next
  case (Upgrade m h)
  show ?thesis
  proof (cases "upgrade s m h")
    case (Inl e)
    with Upgrade assms show ?thesis by simp
  next
    case (Inr s')
    then have s': "s' = s(m \<mapsto> [\<lparr>holder = h, exclusive = True\<rparr>])"
      by (auto simp: upgrade_def split: option.splits if_splits)
    then have "exclusive_alone (leases_of s' m)" by (simp add: leases_of_def exclusive_alone_def)
    moreover have "n \<noteq> m \<Longrightarrow> leases_of s' n = leases_of s n" by (simp add: s' leases_of_def)
    ultimately have "exclusive_alone (leases_of s' n)" using assms by (cases "n = m") auto
    with Upgrade Inr show ?thesis by simp
  qed
next
  case (Reclaim m dead)
  show ?thesis
  proof (cases "s m")
    case None
    with Reclaim assms show ?thesis by (simp add: reclaim_def)
  next
    case (Some leases)
    with assms [rule_format, of m] have "exclusive_alone leases" by (simp add: leases_of_def)
    then have "exclusive_alone (filter (\<lambda>l. holder l \<notin> set dead) leases)"
      by (rule exclusive_alone_filter)
    with Some have "exclusive_alone (leases_of (reclaim s m dead) m)"
      by (simp add: reclaim_def leases_of_def)
    moreover have "n \<noteq> m \<Longrightarrow> leases_of (reclaim s m dead) n = leases_of s n"
      using Some by (simp add: reclaim_def leases_of_def)
    ultimately have "exclusive_alone (leases_of (reclaim s m dead) n)"
      using assms by (cases "n = m") auto
    with Reclaim show ?thesis by simp
  qed
qed

lemma foldl_step_exclusive_alone:
  "\<forall>n. exclusive_alone (leases_of s n) \<Longrightarrow> exclusive_alone (leases_of (foldl perform s calls) n)"
proof (induction calls arbitrary: s)
  case Nil
  then show ?case by simp
next
  case (Cons c calls)
  from Cons.prems have "\<forall>n. exclusive_alone (leases_of (perform s c) n)"
    using step_exclusive_alone by blast
  from Cons.IH [OF this] show ?case by simp
qed

lemma leases_of_enrolled: "leases_of (enrolled nodes) n = []"
  by (induction nodes) (auto simp: enrolled_def leases_of_def)

lemma run_exclusive_alone: "exclusive_alone (leases_of (run nodes calls) n)"
  unfolding run_def
  by (rule foldl_step_exclusive_alone) (simp add: leases_of_enrolled exclusive_alone_def)

lemma exclusive_alone_length: "exclusive_alone leases \<Longrightarrow> length (filter exclusive leases) \<le> 1"
proof (cases "list_ex exclusive leases")
  case True
  assume "exclusive_alone leases"
  with True have "length leases = 1" by (simp add: exclusive_alone_def)
  moreover have "length (filter exclusive leases) \<le> length leases" by (rule length_filter_le)
  ultimately show ?thesis by simp
next
  case False
  then have "filter exclusive leases = []" by (auto simp: list_ex_iff filter_empty_conv)
  then show ?thesis by simp
qed

lemma acquire_locked:
  "leases_of s n \<noteq> [] \<Longrightarrow> acquire s n True h = Inl NodeLocked"
  by (auto simp: leases_of_def acquire_def conflicting_def split: option.splits)

lemma acquire_exclusive_leases:
  "acquire s n True h = Inr s' \<Longrightarrow> leases_of s' n = [\<lparr>holder = h, exclusive = True\<rparr>]"
  by (auto simp: leases_of_def acquire_def conflicting_def split: option.splits if_splits)

text \<open>
  C1: whatever calls the workers have made, in whatever order, at most one holder has an
  exclusive lease on a node, and an exclusive lease is the only lease on its node; an
  exclusive acquisition on a node on which a lease is held fails with \<open>NodeLocked\<close>; and
  when an exclusive acquisition succeeds, the holder is the only one on the node and the
  next exclusive acquisition on that node fails with \<open>NodeLocked\<close>.
\<close>

theorem exclusive_lease_unique:
  "length (exclusive_holders (run nodes calls) n) \<le> 1 \<and>
   (list_ex exclusive (leases_of (run nodes calls) n) \<longrightarrow>
      length (leases_of (run nodes calls) n) = 1) \<and>
   (\<forall>s h. leases_of s n \<noteq> [] \<longrightarrow> acquire s n True h = Inl NodeLocked) \<and>
   (\<forall>s s' h1 h2. acquire s n True h1 = Inr s' \<longrightarrow>
      leases_of s' n = [\<lparr>holder = h1, exclusive = True\<rparr>] \<and>
      acquire s' n True h2 = Inl NodeLocked)"
proof (intro conjI allI impI)
  from exclusive_alone_length [OF run_exclusive_alone]
  show "length (exclusive_holders (run nodes calls) n) \<le> 1"
    by (simp add: exclusive_holders_def)
next
  assume "list_ex exclusive (leases_of (run nodes calls) n)"
  with run_exclusive_alone [of nodes calls n]
  show "length (leases_of (run nodes calls) n) = 1"
    by (simp add: exclusive_alone_def)
next
  fix s h
  assume "leases_of s n \<noteq> []"
  then show "acquire s n True h = Inl NodeLocked" by (rule acquire_locked)
next
  fix s s' h1 h2
  assume a: "acquire s n True h1 = Inr s'"
  then show "leases_of s' n = [\<lparr>holder = h1, exclusive = True\<rparr>]"
    by (rule acquire_exclusive_leases)
  then have "leases_of s' n \<noteq> []" by simp
  then show "acquire s' n True h2 = Inl NodeLocked" by (rule acquire_locked)
qed

text \<open>
  Worker \<open>w1\<close> holds node \<open>n1\<close> exclusively: its lease is the only one on the node, and
  the exclusive acquisition of worker \<open>w2\<close> fails with \<open>NodeLocked\<close>.
\<close>

theorem exclusive_lease_unique_witness:
  "length (leases_of (run [''n1''] [Acquire ''n1'' True ''w1'']) ''n1'') = 1 \<and>
   acquire (run [''n1''] [Acquire ''n1'' True ''w1'']) ''n1'' True ''w2'' = Inl NodeLocked \<and>
   leases_of ((enrolled [''n1''])(''n1'' \<mapsto> [\<lparr>holder = ''w1'', exclusive = True\<rparr>])) ''n1''
     = [\<lparr>holder = ''w1'', exclusive = True\<rparr>] \<and>
   acquire ((enrolled [''n1''])(''n1'' \<mapsto> [\<lparr>holder = ''w1'', exclusive = True\<rparr>])) ''n1'' True ''w2''
     = Inl NodeLocked"
proof -
  let ?s = "run [''n1''] [Acquire ''n1'' True ''w1'']"
  let ?s' = "(enrolled [''n1''])(''n1'' \<mapsto> [\<lparr>holder = ''w1'', exclusive = True\<rparr>])"
  note t = exclusive_lease_unique [of "[''n1'']" "[Acquire ''n1'' True ''w1'']" "''n1''"]
  have r: "leases_of ?s ''n1'' = [\<lparr>holder = ''w1'', exclusive = True\<rparr>]"
    by (simp add: run_def enrolled_def acquire_def conflicting_def leases_of_def)
  have x: "list_ex exclusive (leases_of ?s ''n1'')" by (simp add: r)
  from t [THEN conjunct2, THEN conjunct1] x
  have 1: "length (leases_of ?s ''n1'') = 1" by (rule mp)
  have ne: "leases_of ?s ''n1'' \<noteq> []" by (simp add: r)
  from t [THEN conjunct2, THEN conjunct2, THEN conjunct1, rule_format, OF ne]
  have 2: "acquire ?s ''n1'' True ''w2'' = Inl NodeLocked" .
  have a: "acquire (enrolled [''n1'']) ''n1'' True ''w1'' = Inr ?s'"
    by (simp add: enrolled_def acquire_def conflicting_def)
  from t [THEN conjunct2, THEN conjunct2, THEN conjunct2, rule_format, OF a]
  have 3: "leases_of ?s' ''n1'' = [\<lparr>holder = ''w1'', exclusive = True\<rparr>] \<and>
      acquire ?s' ''n1'' True ''w2'' = Inl NodeLocked" .
  from 1 2 3 show ?thesis by (intro conjI) (elim conjE, assumption)+
qed

section \<open>Properties of periodic driver tasks\<close>















end
